theory Spec2Isabelle
  imports Complex_Main
begin

section \<open>The training scheduler and agent loop of \<^verbatim>\<open>BaseAgent\<close>\<close>

text \<open>
  A shallow embedding of \<^verbatim>\<open>src/fqf_iqn_qrdqn/agent/base_agent.py\<close>.

  Python's unbounded integers are \<^typ>\<open>int\<close>; \<^verbatim>\<open>%\<close> on integers is the floored
  remainder, which is \<^term>\<open>(mod)\<close> on \<^typ>\<open>int\<close>, and raises \<^verbatim>\<open>ZeroDivisionError\<close>
  for a zero divisor, which the model writes out. Floating-point rewards, returns and
  thresholds are idealised as \<^typ>\<open>real\<close>. A computation that raises returns \<open>Inl\<close>;
  a loop that never returns has the value \<open>None\<close>. The environments, the networks, the
  memories and the random sources are external: they are parameters of the model, total
  functions on opaque states.
\<close>

subsection \<open>Errors and results\<close>

datatype error =
    ZeroDivisionError  \<comment> \<open>\<^verbatim>\<open>%\<close> or \<^verbatim>\<open>/\<close> by zero\<close>
  | RuntimeError       \<comment> \<open>\<^verbatim>\<open>argmax\<close> of an empty tensor\<close>

type_synonym 'a result = "(error + 'a) option"

definition ok :: "'a \<Rightarrow> 'a result" where
  "ok x = Some (Inr x)"

definition raise :: "error \<Rightarrow> 'a result" where
  "raise e = Some (Inl e)"

definition rbind :: "'a result \<Rightarrow> ('a \<Rightarrow> 'b result) \<Rightarrow> 'b result" where
  "rbind m f = (case m of None \<Rightarrow> None | Some (Inl e) \<Rightarrow> Some (Inl e) | Some (Inr x) \<Rightarrow> f x)"

definition py_mod :: "int \<Rightarrow> int \<Rightarrow> error + int" where
  "py_mod a b = (if b = 0 then Inl ZeroDivisionError else Inr (a mod b))"

definition py_div :: "real \<Rightarrow> int \<Rightarrow> error + real" where
  "py_div x n = (if n = 0 then Inl ZeroDivisionError else Inr (x / real_of_int n))"

text \<open>\<^verbatim>\<open>best_eval_score\<close> starts at \<^verbatim>\<open>-np.inf\<close> and is a float afterwards.\<close>

datatype score = NegInf | Fin real

fun gt_score :: "real \<Rightarrow> score \<Rightarrow> bool" where
  "gt_score x NegInf = True"
| "gt_score x (Fin b) = (b < x)"

fun score_le :: "score \<Rightarrow> score \<Rightarrow> bool" where
  "score_le NegInf s = True"
| "score_le (Fin x) NegInf = False"
| "score_le (Fin x) (Fin y) = (x \<le> y)"

subsection \<open>Configuration and agent state\<close>

text \<open>
  The attributes that \<^verbatim>\<open>__init__\<close> sets and no method assigns again, together with the
  process-wide toggle \<^verbatim>\<open>use_morl()\<close> (its module is not part of the sources; it is taken
  as a parameter).
\<close>

record cfg =
  use_morl :: bool
  num_steps :: int
  start_steps :: int
  update_interval :: int
  target_update_interval :: int
  eval_interval :: int
  num_eval_steps :: int
  max_episode_steps :: int
  epsilon_eval :: real
  noisy_net :: bool
  use_per :: bool

text \<open>
  The mutable attributes of the agent. The external objects are opaque: \<open>'e\<close> a gym
  environment, \<open>'me\<close> the morl environment, \<open>'n\<close> a network, \<open>'m\<close> the replay memory,
  \<open>'mm\<close> the morl memory, \<open>'s\<close> the running return statistics, \<open>'eps\<close> the annealed
  epsilon, \<open>'r\<close> the state of the random sources, \<open>'p\<close> a network's parameters
  (\<^verbatim>\<open>state_dict\<close>). \<open>saved\<close> is the sequence of checkpoint writes of \<^verbatim>\<open>save_models\<close>,
  oldest first: the directory, the online and the target parameters. \<open>console\<close> is the
  sequence of lines printed: one per training episode (episode index, steps, return) and
  one per evaluation sweep (global steps, mean return). The replay memory is constructed by
  \<^verbatim>\<open>__init__\<close> itself (lines 72-89) and is reached through \<^verbatim>\<open>self.memory\<close> only, so
  it is a component of its own; the training environment is also reached through the
  morl environment, see below.
\<close>

datatype report = Episode int int real | Eval int real

record ('e, 'me, 'n, 'm, 'mm, 's, 'eps, 'r, 'p) agent =
  env :: 'e
  test_env :: 'e
  morl_env :: 'me
  online_net :: 'n
  target_net :: 'n
  memory :: 'm
  morl_memory :: 'mm
  train_return :: 's
  epsilon_train :: 'eps
  rng :: 'r
  steps :: int
  learning_steps :: int
  episodes :: int
  best_eval_score :: score
  saved :: "(string \<times> 'p \<times> 'p) list"
  console :: "report list"

text \<open>What \<^verbatim>\<open>morl_env.step_\<close> returns, as far as the agent reads it.\<close>

record 'o exp =
  next_states :: 'o
  rewards :: real
  dones :: bool

text \<open>
  The external collaborators (environment, networks, memories, random sources, the
  abstract method \<^verbatim>\<open>learn\<close>), as functions on their opaque states; \<open>'o\<close> is an
  observation, an action is an \<^typ>\<open>int\<close>. The morl environment is built around the
  training environment (\<^verbatim>\<open>morl_env = envs.GymEnv(env)\<close> in \<^verbatim>\<open>train_qrdqn.py\<close>), so
  its operations \<^verbatim>\<open>get_states_\<close> and \<^verbatim>\<open>step_\<close> take and return the state of that
  environment as well as their own.
\<close>

record ('e, 'me, 'n, 'm, 'mm, 's, 'eps, 'r, 'p, 'o) collab =
  env_reset :: "'e \<Rightarrow> 'o \<times> 'e"
  env_step :: "'e \<Rightarrow> int \<Rightarrow> ('o \<times> real \<times> bool) \<times> 'e"
  get_states :: "'me \<Rightarrow> 'e \<Rightarrow> 'o \<times> 'me \<times> 'e"
  morl_step :: "'me \<Rightarrow> 'e \<Rightarrow> int \<Rightarrow> 'o exp \<times> 'me \<times> 'e"
  action_space_sample :: "'r \<Rightarrow> int \<times> 'r"
  sample_actions :: "'r \<Rightarrow> int \<times> 'r"
  rand :: "'r \<Rightarrow> real \<times> 'r"
  calculate_q :: "'n \<Rightarrow> 'o \<Rightarrow> real list"
  net_outputs :: "'n \<Rightarrow> 'o \<Rightarrow> real list"
  sample_noise :: "'n \<Rightarrow> 'r \<Rightarrow> 'n \<times> 'r"
  reset_noise :: "'n \<Rightarrow> 'r \<Rightarrow> 'n \<times> 'r"
  net_train :: "'n \<Rightarrow> 'n"
  net_eval :: "'n \<Rightarrow> 'n"
  state_dict :: "'n \<Rightarrow> 'p"
  load_state_dict :: "'n \<Rightarrow> 'p \<Rightarrow> 'n"
  mem_append :: "'m \<Rightarrow> 'o \<times> int \<times> real \<times> 'o \<times> bool \<Rightarrow> 'm"
  morl_add :: "'mm \<Rightarrow> 'o exp \<Rightarrow> 'mm"
  stats_append :: "'s \<Rightarrow> real \<Rightarrow> 's"
  eps_step :: "'eps \<Rightarrow> 'eps"
  eps_get :: "'eps \<Rightarrow> real"
  learn :: "('e, 'me, 'n, 'm, 'mm, 's, 'eps, 'r, 'p) agent \<Rightarrow> ('e, 'me, 'n, 'm, 'mm, 's, 'eps, 'r, 'p) agent"

subsection \<open>The scheduler's predicates\<close>

text \<open>\<^verbatim>\<open>is_update\<close>: the remainder is computed first, so a zero interval raises.\<close>

definition is_update :: "cfg \<Rightarrow> ('e, 'me, 'n, 'm, 'mm, 's, 'eps, 'r, 'p) agent \<Rightarrow> error + bool" where
  "is_update cfg a =
     (case py_mod (steps a) (update_interval cfg) of
        Inl e \<Rightarrow> Inl e
      | Inr m \<Rightarrow> Inr (m = 0 \<and> start_steps cfg \<le> steps a))"

subsection \<open>Action selection\<close>

text \<open>
  \<^verbatim>\<open>is_random\<close>: the tests in the source's order. A draw of \<^verbatim>\<open>np.random.rand()\<close>
  advances the random state; the branches that return a constant draw nothing.
\<close>

definition is_random ::
  "('e, 'me, 'n, 'm, 'mm, 's, 'eps, 'r, 'p, 'o) collab \<Rightarrow> cfg \<Rightarrow>
   ('e, 'me, 'n, 'm, 'mm, 's, 'eps, 'r, 'p) agent \<Rightarrow> bool \<Rightarrow>
   bool \<times> ('e, 'me, 'n, 'm, 'mm, 's, 'eps, 'r, 'p) agent" where
  "is_random c cfg a ev =
     (if steps a < start_steps cfg then (True, a)
      else if ev then
        (let d = rand c (rng a) in (fst d < epsilon_eval cfg, a\<lparr>rng := snd d\<rparr>))
      else if noisy_net cfg then (False, a)
      else
        (let d = rand c (rng a) in (fst d < eps_get c (epsilon_train a), a\<lparr>rng := snd d\<rparr>)))"

text \<open>\<^verbatim>\<open>explore\<close>: a uniformly random action, from the action space of the mode.\<close>

definition explore ::
  "('e, 'me, 'n, 'm, 'mm, 's, 'eps, 'r, 'p, 'o) collab \<Rightarrow> cfg \<Rightarrow>
   ('e, 'me, 'n, 'm, 'mm, 's, 'eps, 'r, 'p) agent \<Rightarrow>
   int \<times> ('e, 'me, 'n, 'm, 'mm, 's, 'eps, 'r, 'p) agent" where
  "explore c cfg a =
     (let d = (if use_morl cfg then sample_actions c (rng a) else action_space_sample c (rng a))
      in (fst d, a\<lparr>rng := snd d\<rparr>))"

text \<open>
  \<^verbatim>\<open>argmax\<close> of a flat tensor: the index of the first maximal value; an empty tensor
  raises.
\<close>

fun argmax :: "real list \<Rightarrow> nat" where
  "argmax [] = 0"
| "argmax [x] = 0"
| "argmax (x # y # ys) = (let j = argmax (y # ys) in if x < (y # ys) ! j then Suc j else 0)"

definition exploit ::
  "('e, 'me, 'n, 'm, 'mm, 's, 'eps, 'r, 'p, 'o) collab \<Rightarrow> cfg \<Rightarrow>
   ('e, 'me, 'n, 'm, 'mm, 's, 'eps, 'r, 'p) agent \<Rightarrow> 'o \<Rightarrow> error + int" where
  "exploit c cfg a state =
     (let q = (if use_morl cfg then net_outputs c (online_net a) state
               else calculate_q c (online_net a) state)
      in if q = [] then Inl RuntimeError else Inr (int (argmax q)))"

text \<open>The action of one step of \<^verbatim>\<open>evaluate\<close> (lines 285-290).\<close>

definition eval_action ::
  "('e, 'me, 'n, 'm, 'mm, 's, 'eps, 'r, 'p, 'o) collab \<Rightarrow> cfg \<Rightarrow>
   ('e, 'me, 'n, 'm, 'mm, 's, 'eps, 'r, 'p) agent \<Rightarrow> 'o \<Rightarrow>
   error + int \<times> ('e, 'me, 'n, 'm, 'mm, 's, 'eps, 'r, 'p) agent" where
  "eval_action c cfg a state =
     (let r = is_random c cfg a True in
      if fst r then Inr (explore c cfg (snd r))
      else (case exploit c cfg (snd r) state of
              Inl e \<Rightarrow> Inl e
            | Inr action \<Rightarrow> Inr (action, snd r)))"

text \<open>
  The action of one step of \<^verbatim>\<open>train_episode\<close> (lines 219-224); with morl the greedy
  action is computed for \<^verbatim>\<open>morl_env.get_states_()\<close>.
\<close>

definition train_action ::
  "('e, 'me, 'n, 'm, 'mm, 's, 'eps, 'r, 'p, 'o) collab \<Rightarrow> cfg \<Rightarrow>
   ('e, 'me, 'n, 'm, 'mm, 's, 'eps, 'r, 'p) agent \<Rightarrow> 'o \<Rightarrow>
   error + int \<times> ('e, 'me, 'n, 'm, 'mm, 's, 'eps, 'r, 'p) agent" where
  "train_action c cfg a state =
     (let r = is_random c cfg a False in
      if fst r then Inr (explore c cfg (snd r))
      else if use_morl cfg then
        (let g = get_states c (morl_env (snd r)) (env (snd r)) in
         case exploit c cfg (snd r) (fst g) of
           Inl e \<Rightarrow> Inl e
         | Inr action \<Rightarrow>
             Inr (action, (snd r)\<lparr>morl_env := fst (snd g), env := snd (snd g)\<rparr>))
      else (case exploit c cfg (snd r) state of
              Inl e \<Rightarrow> Inl e
            | Inr action \<Rightarrow> Inr (action, snd r)))"

subsection \<open>Target synchronisation and checkpoints\<close>

definition update_target ::
  "('e, 'me, 'n, 'm, 'mm, 's, 'eps, 'r, 'p, 'o) collab \<Rightarrow>
   ('e, 'me, 'n, 'm, 'mm, 's, 'eps, 'r, 'p) agent \<Rightarrow> ('e, 'me, 'n, 'm, 'mm, 's, 'eps, 'r, 'p) agent" where
  "update_target c a = a\<lparr>target_net := load_state_dict c (target_net a) (state_dict c (online_net a))\<rparr>"

definition save_models ::
  "('e, 'me, 'n, 'm, 'mm, 's, 'eps, 'r, 'p, 'o) collab \<Rightarrow> string \<Rightarrow>
   ('e, 'me, 'n, 'm, 'mm, 's, 'eps, 'r, 'p) agent \<Rightarrow> ('e, 'me, 'n, 'm, 'mm, 's, 'eps, 'r, 'p) agent" where
  "save_models c save_dir a =
     a\<lparr>saved := saved a @ [(save_dir, state_dict c (online_net a), state_dict c (target_net a))]\<rparr>"

subsection \<open>Evaluation\<close>

text \<open>
  The inner loop of \<^verbatim>\<open>evaluate\<close> (lines 284-297): one episode on the test environment.
  It returns the agent, the episode's return and the sweep's step count.
\<close>

function eval_episode ::
  "('e, 'me, 'n, 'm, 'mm, 's, 'eps, 'r, 'p, 'o) collab \<Rightarrow> cfg \<Rightarrow>
   ('e, 'me, 'n, 'm, 'mm, 's, 'eps, 'r, 'p) agent \<Rightarrow> 'o \<Rightarrow> bool \<Rightarrow> int \<Rightarrow> real \<Rightarrow> int \<Rightarrow>
   error + ('e, 'me, 'n, 'm, 'mm, 's, 'eps, 'r, 'p) agent \<times> real \<times> int" where
  "eval_episode c cfg a state dn episode_steps episode_return nsteps =
     (if \<not> dn \<and> episode_steps \<le> max_episode_steps cfg then
        (case eval_action c cfg a state of
           Inl e \<Rightarrow> Inl e
         | Inr (action, a1) \<Rightarrow>
             (case env_step c (test_env a1) action of
                ((next_state, reward, dn1), te) \<Rightarrow>
                  eval_episode c cfg (a1\<lparr>test_env := te\<rparr>) next_state dn1
                    (episode_steps + 1) (episode_return + reward) (nsteps + 1)))
      else Inr (a, episode_return, nsteps))"
  by pat_completeness auto
termination
  by (relation "measure (\<lambda>(c, cfg, a, state, dn, episode_steps, episode_return, nsteps).
        nat (max_episode_steps cfg + 1 - episode_steps))") auto

text \<open>Lines 280-283 and the inner loop: reset the test environment, run one episode.\<close>

definition eval_one ::
  "('e, 'me, 'n, 'm, 'mm, 's, 'eps, 'r, 'p, 'o) collab \<Rightarrow> cfg \<Rightarrow>
   ('e, 'me, 'n, 'm, 'mm, 's, 'eps, 'r, 'p) agent \<Rightarrow> int \<Rightarrow>
   error + ('e, 'me, 'n, 'm, 'mm, 's, 'eps, 'r, 'p) agent \<times> real \<times> int" where
  "eval_one c cfg a nsteps =
     (let r = env_reset c (test_env a)
      in eval_episode c cfg (a\<lparr>test_env := snd r\<rparr>) (fst r) False 0 0 nsteps)"

text \<open>
  The outer \<^verbatim>\<open>while True\<close> of \<^verbatim>\<open>evaluate\<close> (lines 279-305), with the locals
  \<^verbatim>\<open>num_episodes\<close>, \<^verbatim>\<open>num_steps\<close> and \<^verbatim>\<open>total_return\<close>. Line 301 divides for the
  progress bar.
\<close>

partial_function (option) eval_loop ::
  "('e, 'me, 'n, 'm, 'mm, 's, 'eps, 'r, 'p, 'o) collab \<Rightarrow> cfg \<Rightarrow>
   ('e, 'me, 'n, 'm, 'mm, 's, 'eps, 'r, 'p) agent \<Rightarrow> int \<Rightarrow> int \<Rightarrow> real \<Rightarrow>
   (('e, 'me, 'n, 'm, 'mm, 's, 'eps, 'r, 'p) agent \<times> int \<times> int \<times> real) result" where
  "eval_loop c cfg a num_episodes nsteps total_return =
     (case eval_one c cfg a nsteps of
        Inl e \<Rightarrow> Some (Inl e)
      | Inr r \<Rightarrow>
          (case py_div (total_return + fst (snd r)) (num_episodes + 1) of
             Inl e \<Rightarrow> Some (Inl e)
           | Inr descr \<Rightarrow>
               if num_eval_steps cfg < snd (snd r)
               then Some (Inr (fst r, num_episodes + 1, snd (snd r), total_return + fst (snd r)))
               else eval_loop c cfg (fst r) (num_episodes + 1) (snd (snd r))
                      (total_return + fst (snd r))))"

definition evaluate ::
  "('e, 'me, 'n, 'm, 'mm, 's, 'eps, 'r, 'p, 'o) collab \<Rightarrow> cfg \<Rightarrow>
   ('e, 'me, 'n, 'm, 'mm, 's, 'eps, 'r, 'p) agent \<Rightarrow>
   ('e, 'me, 'n, 'm, 'mm, 's, 'eps, 'r, 'p) agent result" where
  "evaluate c cfg a =
     rbind (eval_loop c cfg (a\<lparr>online_net := net_eval c (online_net a)\<rparr>) 0 0 0)
       (\<lambda>(a1, num_episodes, nsteps, total_return).
          case py_div total_return num_episodes of
            Inl e \<Rightarrow> raise e
          | Inr mean_return \<Rightarrow>
              (let a2 = (if gt_score mean_return (best_eval_score a1)
                         then save_models c ''best'' (a1\<lparr>best_eval_score := Fin mean_return\<rparr>)
                         else a1)
               in ok (a2\<lparr>console := console a2 @ [Eval (steps a2) mean_return]\<rparr>)))"

subsection \<open>The scheduler tick\<close>

text \<open>
  Modelled from the spec: \<^verbatim>\<open>learn\<close> is abstract in \<^verbatim>\<open>BaseAgent\<close> and its
  implementation is not part of the sources. The spec describes the learning step as
  sampling a batch, an external loss and update, and a priority update; so the
  collaborator reads the agent and its effect is confined to the networks, the memories,
  \<^verbatim>\<open>learning_steps\<close> and the random state.
\<close>

definition learn_step ::
  "('e, 'me, 'n, 'm, 'mm, 's, 'eps, 'r, 'p, 'o) collab \<Rightarrow>
   ('e, 'me, 'n, 'm, 'mm, 's, 'eps, 'r, 'p) agent \<Rightarrow> ('e, 'me, 'n, 'm, 'mm, 's, 'eps, 'r, 'p) agent" where
  "learn_step c a =
     (let l = learn c a
      in a\<lparr>online_net := online_net l, target_net := target_net l, memory := memory l,
           morl_memory := morl_memory l, learning_steps := learning_steps l, rng := rng l\<rparr>)"

text \<open>Lines 265-271 of \<^verbatim>\<open>train_step_interval\<close>: the learning step and the evaluation.\<close>

definition learn_and_evaluate ::
  "('e, 'me, 'n, 'm, 'mm, 's, 'eps, 'r, 'p, 'o) collab \<Rightarrow> cfg \<Rightarrow>
   ('e, 'me, 'n, 'm, 'mm, 's, 'eps, 'r, 'p) agent \<Rightarrow>
   ('e, 'me, 'n, 'm, 'mm, 's, 'eps, 'r, 'p) agent result" where
  "learn_and_evaluate c cfg a =
     (case is_update cfg a of
        Inl e \<Rightarrow> raise e
      | Inr upd \<Rightarrow>
          (let a1 = (if upd then learn_step c a else a) in
           case py_mod (steps a1) (eval_interval cfg) of
             Inl e \<Rightarrow> raise e
           | Inr m \<Rightarrow>
               if m = 0 then
                 rbind (evaluate c cfg a1)
                   (\<lambda>a2. let a3 = save_models c ''final'' a2
                         in ok (a3\<lparr>online_net := net_train c (online_net a3)\<rparr>))
               else ok a1))"

text \<open>\<^verbatim>\<open>train_step_interval\<close>: lines 260-263, then the part above.\<close>

definition train_step_interval ::
  "('e, 'me, 'n, 'm, 'mm, 's, 'eps, 'r, 'p, 'o) collab \<Rightarrow> cfg \<Rightarrow>
   ('e, 'me, 'n, 'm, 'mm, 's, 'eps, 'r, 'p) agent \<Rightarrow>
   ('e, 'me, 'n, 'm, 'mm, 's, 'eps, 'r, 'p) agent result" where
  "train_step_interval c cfg a =
     (let a1 = a\<lparr>epsilon_train := eps_step c (epsilon_train a)\<rparr> in
      case py_mod (steps a1) (target_update_interval cfg) of
        Inl e \<Rightarrow> raise e
      | Inr m \<Rightarrow> learn_and_evaluate c cfg (if m = 0 then update_target c a1 else a1))"

subsection \<open>Training episodes\<close>

text \<open>
  Lines 214-245: resample the noise, select the action, step the environment, store the
  transition, count the step. It returns the agent with \<^verbatim>\<open>next_state\<close>,
  \<^verbatim>\<open>reward\<close> and \<^verbatim>\<open>done\<close>.
\<close>

definition train_interact ::
  "('e, 'me, 'n, 'm, 'mm, 's, 'eps, 'r, 'p, 'o) collab \<Rightarrow> cfg \<Rightarrow>
   ('e, 'me, 'n, 'm, 'mm, 's, 'eps, 'r, 'p) agent \<Rightarrow> 'o \<Rightarrow>
   error + ('e, 'me, 'n, 'm, 'mm, 's, 'eps, 'r, 'p) agent \<times> 'o \<times> real \<times> bool" where
  "train_interact c cfg a state =
     (let z = (if use_morl cfg then reset_noise c (online_net a) (rng a)
               else sample_noise c (online_net a) (rng a));
          a1 = a\<lparr>online_net := fst z, rng := snd z\<rparr>
      in case train_action c cfg a1 state of
           Inl e \<Rightarrow> Inl e
         | Inr (action, a2) \<Rightarrow>
             if use_morl cfg then
               (let x = morl_step c (morl_env a2) (env a2) action;
                    a3 = a2\<lparr>morl_env := fst (snd x), env := snd (snd x),
                            morl_memory := morl_add c (morl_memory a2) (fst x)\<rparr>
                in Inr (a3\<lparr>steps := steps a3 + 1\<rparr>,
                        next_states (fst x), rewards (fst x), dones (fst x)))
             else
               (case env_step c (env a2) action of
                  ((next_state, reward, dn), e) \<Rightarrow>
                    (let a3 = a2\<lparr>env := e,
                                 memory := mem_append c (memory a2)
                                             (state, action, reward, next_state, dn)\<rparr>
                     in Inr (a3\<lparr>steps := steps a3 + 1\<rparr>, next_state, reward, dn))))"

text \<open>
  The loop of \<^verbatim>\<open>train_episode\<close> (lines 210-247). It returns the agent with the
  locals \<^verbatim>\<open>episode_steps\<close> and \<^verbatim>\<open>episode_return\<close>.
\<close>

function train_loop ::
  "('e, 'me, 'n, 'm, 'mm, 's, 'eps, 'r, 'p, 'o) collab \<Rightarrow> cfg \<Rightarrow>
   ('e, 'me, 'n, 'm, 'mm, 's, 'eps, 'r, 'p) agent \<Rightarrow> 'o \<Rightarrow> bool \<Rightarrow> int \<Rightarrow> real \<Rightarrow>
   (('e, 'me, 'n, 'm, 'mm, 's, 'eps, 'r, 'p) agent \<times> int \<times> real) result" where
  "train_loop c cfg a state dn episode_steps episode_return =
     (if \<not> dn \<and> episode_steps \<le> max_episode_steps cfg then
        (case train_interact c cfg a state of
           Inl e \<Rightarrow> raise e
         | Inr (a1, next_state, reward, dn1) \<Rightarrow>
             (case train_step_interval c cfg a1 of
                None \<Rightarrow> None
              | Some (Inl e) \<Rightarrow> raise e
              | Some (Inr a2) \<Rightarrow>
                  train_loop c cfg a2 next_state dn1 (episode_steps + 1)
                    (episode_return + reward)))
      else ok (a, episode_steps, episode_return))"
  by pat_completeness auto
termination
  by (relation "measure (\<lambda>(c, cfg, a, state, dn, episode_steps, episode_return).
        nat (max_episode_steps cfg + 1 - episode_steps))") auto

text \<open>
  Lines 210-257, from the initial \<^verbatim>\<open>state\<close>: the loop, then the return is appended to
  \<^verbatim>\<open>train_return\<close> and the episode's line is printed.
\<close>

definition episode_from ::
  "('e, 'me, 'n, 'm, 'mm, 's, 'eps, 'r, 'p, 'o) collab \<Rightarrow> cfg \<Rightarrow>
   ('e, 'me, 'n, 'm, 'mm, 's, 'eps, 'r, 'p) agent \<Rightarrow> 'o \<Rightarrow>
   ('e, 'me, 'n, 'm, 'mm, 's, 'eps, 'r, 'p) agent result" where
  "episode_from c cfg a state =
     rbind (train_loop c cfg a state False 0 0)
       (\<lambda>(a1, episode_steps, episode_return).
          ok (a1\<lparr>train_return := stats_append c (train_return a1) episode_return,
                 console := console a1 @ [Episode (episodes a1) episode_steps episode_return]\<rparr>))"

text \<open>
  \<^verbatim>\<open>train_episode\<close>. With morl the initial state is \<^verbatim>\<open>morl_env.get_states_()\<close>;
  otherwise the environment is reset.
\<close>

definition train_episode ::
  "('e, 'me, 'n, 'm, 'mm, 's, 'eps, 'r, 'p, 'o) collab \<Rightarrow> cfg \<Rightarrow>
   ('e, 'me, 'n, 'm, 'mm, 's, 'eps, 'r, 'p) agent \<Rightarrow>
   ('e, 'me, 'n, 'm, 'mm, 's, 'eps, 'r, 'p) agent result" where
  "train_episode c cfg a =
     (let a1 = a\<lparr>online_net := net_train c (online_net a), target_net := net_train c (target_net a)\<rparr>;
          a2 = a1\<lparr>episodes := episodes a1 + 1\<rparr>
      in if use_morl cfg then
           (let g = get_states c (morl_env a2) (env a2)
            in episode_from c cfg (a2\<lparr>morl_env := fst (snd g), env := snd (snd g)\<rparr>) (fst g))
         else
           (let r = env_reset c (env a2)
            in episode_from c cfg (a2\<lparr>env := snd r\<rparr>) (fst r)))"

text \<open>\<^verbatim>\<open>run\<close>: whole episodes until the step counter exceeds \<^verbatim>\<open>num_steps\<close>.\<close>

partial_function (option) run ::
  "('e, 'me, 'n, 'm, 'mm, 's, 'eps, 'r, 'p, 'o) collab \<Rightarrow> cfg \<Rightarrow>
   ('e, 'me, 'n, 'm, 'mm, 's, 'eps, 'r, 'p) agent \<Rightarrow>
   ('e, 'me, 'n, 'm, 'mm, 's, 'eps, 'r, 'p) agent result" where
  "run c cfg a =
     (case train_episode c cfg a of
        None \<Rightarrow> None
      | Some (Inl e) \<Rightarrow> Some (Inl e)
      | Some (Inr a1) \<Rightarrow> if num_steps cfg < steps a1 then Some (Inr a1) else run c cfg a1)"

subsection \<open>Construction\<close>

text \<open>Line 73: true division of two integers.\<close>

definition beta_steps :: "cfg \<Rightarrow> error + real" where
  "beta_steps cfg = py_div (real_of_int (num_steps cfg - start_steps cfg)) (update_interval cfg)"

text \<open>
  Lines 68-125 of \<^verbatim>\<open>__init__\<close>. The environments, networks, statistics, epsilon
  schedule and random state are given as constructed and seeded; \<open>lazy_memory\<close> and
  \<open>lazy_per_memory\<close> stand for the two memory constructors applied to all arguments
  but \<^verbatim>\<open>beta_steps\<close>.
\<close>

definition init ::
  "cfg \<Rightarrow> 'e \<Rightarrow> 'e \<Rightarrow> 'me \<Rightarrow> 'n \<Rightarrow> 'n \<Rightarrow> 'm \<Rightarrow> (real \<Rightarrow> 'm) \<Rightarrow> 'mm \<Rightarrow> 's \<Rightarrow> 'eps \<Rightarrow> 'r \<Rightarrow>
   error + ('e, 'me, 'n, 'm, 'mm, 's, 'eps, 'r, 'p) agent" where
  "init cfg env0 test_env0 morl_env0 online0 target0 lazy_memory lazy_per_memory
        morl_memory0 stats0 eps0 rng0 =
     (case (if use_per cfg
            then (case beta_steps cfg of Inl e \<Rightarrow> Inl e | Inr b \<Rightarrow> Inr (lazy_per_memory b))
            else Inr lazy_memory) of
        Inl e \<Rightarrow> Inl e
      | Inr mem \<Rightarrow>
          Inr \<lparr>env = env0, test_env = test_env0, morl_env = morl_env0,
               online_net = online0, target_net = target0, memory = mem,
               morl_memory = morl_memory0, train_return = stats0, epsilon_train = eps0,
               rng = rng0, steps = 0, learning_steps = 0, episodes = 0,
               best_eval_score = NegInf, saved = [], console = []\<rparr>)"

subsection \<open>Sequences of whole episodes\<close>

text \<open>
  The evaluation sweep in the spec's words: \<open>k\<close> full episodes run one after the other
  from a starting step count; the result is the agent, the list of the episodes' returns
  and the cumulative number of steps.
\<close>

fun eval_episodes ::
  "('e, 'me, 'n, 'm, 'mm, 's, 'eps, 'r, 'p, 'o) collab \<Rightarrow> cfg \<Rightarrow>
   ('e, 'me, 'n, 'm, 'mm, 's, 'eps, 'r, 'p) agent \<Rightarrow> int \<Rightarrow> nat \<Rightarrow>
   error + ('e, 'me, 'n, 'm, 'mm, 's, 'eps, 'r, 'p) agent \<times> real list \<times> int" where
  "eval_episodes c cfg a nsteps 0 = Inr (a, [], nsteps)"
| "eval_episodes c cfg a nsteps (Suc k) =
     (case eval_one c cfg a nsteps of
        Inl e \<Rightarrow> Inl e
      | Inr (a1, ret, n1) \<Rightarrow>
          (case eval_episodes c cfg a1 n1 k of
             Inl e \<Rightarrow> Inl e
           | Inr (a2, rets, n2) \<Rightarrow> Inr (a2, ret # rets, n2)))"

text \<open>After \<open>j\<close> episodes the cumulative step count has not exceeded the budget.\<close>

definition within_budget ::
  "('e, 'me, 'n, 'm, 'mm, 's, 'eps, 'r, 'p, 'o) collab \<Rightarrow> cfg \<Rightarrow>
   ('e, 'me, 'n, 'm, 'mm, 's, 'eps, 'r, 'p) agent \<Rightarrow> int \<Rightarrow> nat \<Rightarrow> bool" where
  "within_budget c cfg a nsteps j =
     (case eval_episodes c cfg a nsteps j of
        Inl e \<Rightarrow> False
      | Inr (a1, rets, n1) \<Rightarrow> n1 \<le> num_eval_steps cfg)"

text \<open>\<open>k\<close> whole training episodes, one after the other.\<close>

fun train_episodes ::
  "('e, 'me, 'n, 'm, 'mm, 's, 'eps, 'r, 'p, 'o) collab \<Rightarrow> cfg \<Rightarrow>
   ('e, 'me, 'n, 'm, 'mm, 's, 'eps, 'r, 'p) agent \<Rightarrow> nat \<Rightarrow>
   ('e, 'me, 'n, 'm, 'mm, 's, 'eps, 'r, 'p) agent result" where
  "train_episodes c cfg a 0 = ok a"
| "train_episodes c cfg a (Suc k) = rbind (train_episode c cfg a) (\<lambda>a1. train_episodes c cfg a1 k)"

text \<open>After \<open>j\<close> training episodes the step counter has not exceeded \<open>num_steps\<close>.\<close>

definition still_training ::
  "('e, 'me, 'n, 'm, 'mm, 's, 'eps, 'r, 'p, 'o) collab \<Rightarrow> cfg \<Rightarrow>
   ('e, 'me, 'n, 'm, 'mm, 's, 'eps, 'r, 'p) agent \<Rightarrow> nat \<Rightarrow> bool" where
  "still_training c cfg a j =
     (case train_episodes c cfg a j of
        None \<Rightarrow> False
      | Some (Inl e) \<Rightarrow> False
      | Some (Inr aj) \<Rightarrow> steps aj \<le> num_steps cfg)"

text \<open>
  The training loop in the spec's words: \<open>k\<close> iterations of its body (lines 211-247), one
  after the other, whatever the loop test says. The result is the agent, the current
  \<^verbatim>\<open>state\<close> and \<^verbatim>\<open>done\<close>, and the rewards received, oldest first.
\<close>

fun train_iterations ::
  "('e, 'me, 'n, 'm, 'mm, 's, 'eps, 'r, 'p, 'o) collab \<Rightarrow> cfg \<Rightarrow>
   ('e, 'me, 'n, 'm, 'mm, 's, 'eps, 'r, 'p) agent \<Rightarrow> 'o \<Rightarrow> bool \<Rightarrow> nat \<Rightarrow>
   (('e, 'me, 'n, 'm, 'mm, 's, 'eps, 'r, 'p) agent \<times> 'o \<times> bool \<times> real list) result" where
  "train_iterations c cfg a state dn 0 = ok (a, state, dn, [])"
| "train_iterations c cfg a state dn (Suc k) =
     (case train_interact c cfg a state of
        Inl e \<Rightarrow> raise e
      | Inr (a1, next_state, reward, dn1) \<Rightarrow>
          rbind (train_step_interval c cfg a1)
            (\<lambda>a2. rbind (train_iterations c cfg a2 next_state dn1 k)
                     (\<lambda>(a3, s3, d3, rs). ok (a3, s3, d3, reward # rs))))"

text \<open>
  The loop test of \<^verbatim>\<open>train_episode\<close> holds after \<open>j\<close> iterations that started with
  \<^verbatim>\<open>episode_steps = es\<close>.
\<close>

definition loop_test ::
  "('e, 'me, 'n, 'm, 'mm, 's, 'eps, 'r, 'p, 'o) collab \<Rightarrow> cfg \<Rightarrow>
   ('e, 'me, 'n, 'm, 'mm, 's, 'eps, 'r, 'p) agent \<Rightarrow> 'o \<Rightarrow> bool \<Rightarrow> int \<Rightarrow> nat \<Rightarrow> bool" where
  "loop_test c cfg a state dn es j =
     (case train_iterations c cfg a state dn j of
        None \<Rightarrow> False
      | Some (Inl e) \<Rightarrow> False
      | Some (Inr (aj, sj, dj, rs)) \<Rightarrow> \<not> dj \<and> es + int j \<le> max_episode_steps cfg)"

subsection \<open>A small concrete instance\<close>

text \<open>
  Collaborators on which the definitions can be run: an environment whose state counts
  the steps since the last reset and whose episodes end at step \<open>L\<close>, with reward 1 per
  step; a morl environment that reads and steps this environment and counts its own
  steps; a random source that always draws \<open>1/2\<close>; a network whose second action has the
  larger value; memories and statistics that keep what is appended; and a learning step
  that counts its calls.
\<close>

definition toy :: "nat \<Rightarrow> (nat, nat, nat, (nat \<times> int \<times> real \<times> nat \<times> bool) list, nat exp list, real list, nat, nat, nat, nat) collab" where
  "toy L = \<lparr>env_reset = (\<lambda>e. (0, 0)),
            env_step = (\<lambda>e action. ((Suc e, 1, L \<le> Suc e), Suc e)),
            get_states = (\<lambda>me e. (e, me, e)),
            morl_step = (\<lambda>me e action.
              (\<lparr>next_states = Suc e, rewards = 1, dones = (L \<le> Suc e)\<rparr>, Suc me, Suc e)),
            action_space_sample = (\<lambda>r. (0, Suc r)),
            sample_actions = (\<lambda>r. (0, Suc r)),
            rand = (\<lambda>r. (1 / 2, Suc r)),
            calculate_q = (\<lambda>n obs. [0, 1]),
            net_outputs = (\<lambda>n obs. [0, 1]),
            sample_noise = (\<lambda>n r. (n, r)),
            reset_noise = (\<lambda>n r. (n, r)),
            net_train = (\<lambda>n. n),
            net_eval = (\<lambda>n. n),
            state_dict = (\<lambda>n. n),
            load_state_dict = (\<lambda>n p. p),
            mem_append = (\<lambda>m t. m @ [t]),
            morl_add = (\<lambda>mm x. mm @ [x]),
            stats_append = (\<lambda>s x. s @ [x]),
            eps_step = Suc,
            eps_get = (\<lambda>k. max (1 / 100) (1 - real k / 4)),
            learn = (\<lambda>a. a\<lparr>online_net := Suc (online_net a), learning_steps := learning_steps a + 1\<rparr>)\<rparr>"

definition toy_cfg :: cfg where
  "toy_cfg = \<lparr>use_morl = False, num_steps = 3, start_steps = 2, update_interval = 2,
     target_update_interval = 2, eval_interval = 3, num_eval_steps = 1, max_episode_steps = 10,
     epsilon_eval = 1 / 1000, noisy_net = False, use_per = False\<rparr>"

text \<open>The default arguments of \<^verbatim>\<open>__init__\<close>, with morl off.\<close>

definition default_cfg :: cfg where
  "default_cfg = \<lparr>use_morl = False, num_steps = 50000000, start_steps = 50000,
     update_interval = 4, target_update_interval = 10000, eval_interval = 250000,
     num_eval_steps = 125000, max_episode_steps = 27000, epsilon_eval = 1 / 1000,
     noisy_net = False, use_per = False\<rparr>"

definition toy_agent :: "(nat, nat, nat, (nat \<times> int \<times> real \<times> nat \<times> bool) list, nat exp list, real list, nat, nat, nat) agent" where
  "toy_agent = \<lparr>env = 7, test_env = 7, morl_env = 0, online_net = 0, target_net = 0, memory = [],
     morl_memory = [], train_return = [], epsilon_train = 0, rng = 0, steps = 0,
     learning_steps = 0, episodes = 0, best_eval_score = NegInf, saved = [], console = []\<rparr>"


declare eval_episode.simps [simp del] train_loop.simps [simp del]

declare eval_loop.simps [code] run.simps [code]

section \<open>Auxiliary lemmas\<close>

subsection \<open>What the evaluation changes\<close>



lemma is_random_frame: "\<exists>r. snd (is_random c cfg a ev) = a\<lparr>rng := r\<rparr>"
  by (auto simp: is_random_def Let_def intro: exI [of _ "rng a"])

lemma explore_frame: "\<exists>r. snd (explore c cfg a) = a\<lparr>rng := r\<rparr>"
  by (auto simp: explore_def Let_def)

lemma eval_action_frame:
  "eval_action c cfg a state = Inr (action, a1) \<Longrightarrow> \<exists>r. a1 = a\<lparr>rng := r\<rparr>"
proof -
  assume h: "eval_action c cfg a state = Inr (action, a1)"
  obtain r where r: "snd (is_random c cfg a True) = a\<lparr>rng := r\<rparr>"
    using is_random_frame [of c cfg a True] by blast
  obtain r' where r': "snd (explore c cfg (a\<lparr>rng := r\<rparr>)) = a\<lparr>rng := r, rng := r'\<rparr>"
    using explore_frame [of c cfg "a\<lparr>rng := r\<rparr>"] by auto
  show ?thesis
  proof (cases "fst (is_random c cfg a True)")
    case True
    with h r r' have "a1 = a\<lparr>rng := r'\<rparr>"
      by (auto simp: eval_action_def Let_def)
    then show ?thesis by blast
  next
    case False
    with h r have "a1 = a\<lparr>rng := r\<rparr>"
      by (auto simp: eval_action_def Let_def split: sum.splits)
    then show ?thesis by blast
  qed
qed

lemma eval_episode_frame:
  "eval_episode c cfg a state dn es er ns = Inr (a', ret, ns') \<Longrightarrow>
   \<exists>te r. a' = a\<lparr>test_env := te, rng := r\<rparr>"
proof (induction c cfg a state dn es er ns rule: eval_episode.induct)
  case (1 c cfg a state dn es er ns)
  show ?case
  proof (cases "\<not> dn \<and> es \<le> max_episode_steps cfg")
    case False
    with "1.prems" have "a' = a" by (simp add: eval_episode.simps)
    then have "a' = a\<lparr>test_env := test_env a, rng := rng a\<rparr>" by simp
    then show ?thesis by blast
  next
    case True
    with "1.prems" obtain action a1 where ea: "eval_action c cfg a state = Inr (action, a1)"
      by (auto simp: eval_episode.simps [of c cfg a] split: sum.splits)
    obtain next_state reward dn1 te where st: "env_step c (test_env a1) action = ((next_state, reward, dn1), te)"
      by (metis prod_cases3 surj_pair)
    from "1.prems" True ea st have rec: "eval_episode c cfg (a1\<lparr>test_env := te\<rparr>) next_state dn1 (es + 1) (er + reward) (ns + 1) = Inr (a', ret, ns')"
      by (simp add: eval_episode.simps [of c cfg a])
    from "1.IH" [OF True ea refl st [symmetric] refl refl rec]
    obtain te' r' where a': "a' = a1\<lparr>test_env := te, test_env := te', rng := r'\<rparr>" by blast
    from eval_action_frame [OF ea] obtain r where "a1 = a\<lparr>rng := r\<rparr>" by blast
    with a' have "a' = a\<lparr>test_env := te', rng := r'\<rparr>" by simp
    then show ?thesis by blast
  qed
qed


lemma eval_action_error: "eval_action c cfg a state = Inl e \<Longrightarrow> e = RuntimeError"
  by (auto simp: eval_action_def exploit_def Let_def split: if_splits sum.splits)

lemma eval_episode_error:
  "eval_episode c cfg a state dn es er ns = Inl e \<Longrightarrow> e = RuntimeError"
proof (induction c cfg a state dn es er ns rule: eval_episode.induct)
  case (1 c cfg a state dn es er ns)
  show ?case
  proof (cases "\<not> dn \<and> es \<le> max_episode_steps cfg")
    case False
    with "1.prems" show ?thesis by (simp add: eval_episode.simps)
  next
    case True
    show ?thesis
    proof (cases "eval_action c cfg a state")
      case (Inl e')
      with "1.prems" True have "e' = e" by (simp add: eval_episode.simps [of c cfg a])
      with Inl eval_action_error [of c cfg a state e'] show ?thesis by simp
    next
      case (Inr b)
      obtain action a1 where b: "b = (action, a1)" by (cases b)
      obtain next_state reward dn1 te where
        st: "env_step c (test_env a1) action = ((next_state, reward, dn1), te)"
        by (metis prod_cases3 surj_pair)
      from "1.prems" True Inr b st have
        "eval_episode c cfg (a1\<lparr>test_env := te\<rparr>) next_state dn1 (es + 1) (er + reward) (ns + 1) = Inl e"
        by (simp add: eval_episode.simps [of c cfg a])
      with "1.IH" [OF True Inr b [symmetric] st [symmetric] refl refl] show ?thesis by blast
    qed
  qed
qed

lemma eval_episode_steps:
  "eval_episode c cfg a state dn es er ns = Inr (a', ret, ns') \<Longrightarrow>
   ns \<le> ns' \<and> (\<not> dn \<and> es \<le> max_episode_steps cfg \<longrightarrow> ns + 1 \<le> ns')"
proof (induction c cfg a state dn es er ns rule: eval_episode.induct)
  case (1 c cfg a state dn es er ns)
  show ?case
  proof (cases "\<not> dn \<and> es \<le> max_episode_steps cfg")
    case False
    with "1.prems" show ?thesis by (simp add: eval_episode.simps)
  next
    case True
    with "1.prems" obtain action a1 where ea: "eval_action c cfg a state = Inr (action, a1)"
      by (auto simp: eval_episode.simps [of c cfg a] split: sum.splits)
    obtain next_state reward dn1 te where
      st: "env_step c (test_env a1) action = ((next_state, reward, dn1), te)"
      by (metis prod_cases3 surj_pair)
    from "1.prems" True ea st have
      "eval_episode c cfg (a1\<lparr>test_env := te\<rparr>) next_state dn1 (es + 1) (er + reward) (ns + 1) = Inr (a', ret, ns')"
      by (simp add: eval_episode.simps [of c cfg a])
    from "1.IH" [OF True ea refl st [symmetric] refl refl this] have "ns + 1 \<le> ns'" by simp
    then show ?thesis by simp
  qed
qed

lemma eval_one_frame:
  "eval_one c cfg a ns = Inr (a', ret, ns') \<Longrightarrow> \<exists>te r. a' = a\<lparr>test_env := te, rng := r\<rparr>"
proof -
  assume "eval_one c cfg a ns = Inr (a', ret, ns')"
  then have "\<exists>te r. a' = a\<lparr>test_env := snd (env_reset c (test_env a)), test_env := te, rng := r\<rparr>"
    unfolding eval_one_def Let_def by (rule eval_episode_frame)
  then obtain te r where "a' = a\<lparr>test_env := snd (env_reset c (test_env a)), test_env := te, rng := r\<rparr>"
    by (elim exE)
  then have "a' = a\<lparr>test_env := te, rng := r\<rparr>" by simp
  then show ?thesis by blast
qed

lemma eval_one_error: "eval_one c cfg a ns = Inl e \<Longrightarrow> e = RuntimeError"
  unfolding eval_one_def Let_def by (rule eval_episode_error)

lemma eval_one_steps:
  "eval_one c cfg a ns = Inr (a', ret, ns') \<Longrightarrow>
   ns \<le> ns' \<and> (0 \<le> max_episode_steps cfg \<longrightarrow> ns + 1 \<le> ns')"
  unfolding eval_one_def Let_def by (drule eval_episode_steps) simp

subsection \<open>The sweep as a sequence of whole episodes\<close>

lemma within_budget_Suc:
  "eval_one c cfg a ns = Inr (a1, ret, n1) \<Longrightarrow>
   within_budget c cfg a ns (Suc j) = within_budget c cfg a1 n1 j"
  by (simp add: within_budget_def split: sum.splits prod.splits)

lemma eval_loop_sound:
  assumes "eval_loop c cfg a ne ns tot = Some y"
  shows "\<forall>a' ne' ns' tot'. y = Inr (a', ne', ns', tot') \<longrightarrow>
     (\<exists>k rets. eval_episodes c cfg a ns (Suc k) = Inr (a', rets, ns') \<and>
        ne' = ne + 1 + int k \<and> length rets = Suc k \<and> tot' = tot + sum_list rets \<and>
        num_eval_steps cfg < ns' \<and>
        (\<forall>j. 0 < j \<and> j \<le> k \<longrightarrow> within_budget c cfg a ns j))"
proof (rule eval_loop.raw_induct [where P = "\<lambda>c cfg a ne ns tot y.
     \<forall>a' ne' ns' tot'. y = Inr (a', ne', ns', tot') \<longrightarrow>
     (\<exists>k rets. eval_episodes c cfg a ns (Suc k) = Inr (a', rets, ns') \<and>
        ne' = ne + 1 + int k \<and> length rets = Suc k \<and> tot' = tot + sum_list rets \<and>
        num_eval_steps cfg < ns' \<and>
        (\<forall>j. 0 < j \<and> j \<le> k \<longrightarrow> within_budget c cfg a ns j))", OF _ assms], goal_cases)
  case (1 f c cfg a ne ns tot y)
  show ?case
  proof (intro allI impI)
    fix a' ne' ns' tot'
    assume y: "y = Inr (a', ne', ns', tot')"
    have "\<exists>r. eval_one c cfg a ns = Inr r"
    proof (cases "eval_one c cfg a ns")
      case (Inl e)
      with "1"(2) y show ?thesis by simp
    next
      case (Inr r)
      then show ?thesis by (rule exI)
    qed
    then obtain r where r: "eval_one c cfg a ns = Inr r" by (elim exE)
    obtain a1 ret n1 where r3: "r = (a1, ret, n1)" by (cases r)
    note one = r [unfolded r3]
    have "\<exists>d. py_div (tot + ret) (ne + 1) = Inr d"
    proof (cases "py_div (tot + ret) (ne + 1)")
      case (Inl e)
      with "1"(2) y one show ?thesis by simp
    next
      case (Inr d)
      then show ?thesis by (rule exI)
    qed
    then obtain d where d: "py_div (tot + ret) (ne + 1) = Inr d" by (elim exE)
    from "1"(2) one d have body:
      "(if num_eval_steps cfg < n1 then Some (Inr (a1, ne + 1, n1, tot + ret))
        else f c cfg a1 (ne + 1) n1 (tot + ret)) = Some y"
      by (simp split: if_splits)
    show "\<exists>k rets. eval_episodes c cfg a ns (Suc k) = Inr (a', rets, ns') \<and>
        ne' = ne + 1 + int k \<and> length rets = Suc k \<and> tot' = tot + sum_list rets \<and>
        num_eval_steps cfg < ns' \<and>
        (\<forall>j. 0 < j \<and> j \<le> k \<longrightarrow> within_budget c cfg a ns j)"
    proof (cases "num_eval_steps cfg < n1")
      case True
      with body y have "a' = a1 \<and> ne' = ne + 1 \<and> ns' = n1 \<and> tot' = tot + ret"
        by simp
      with one True have "eval_episodes c cfg a ns (Suc 0) = Inr (a', [ret], ns') \<and>
        ne' = ne + 1 + int 0 \<and> length [ret] = Suc 0 \<and> tot' = tot + sum_list [ret] \<and>
        num_eval_steps cfg < ns' \<and>
        (\<forall>j. 0 < j \<and> j \<le> (0::nat) \<longrightarrow> within_budget c cfg a ns j)"
        by simp
      then show ?thesis by blast
    next
      case False
      with body have "f c cfg a1 (ne + 1) n1 (tot + ret) = Some y"
        by simp
      from "1"(1) [OF this, rule_format, OF y] obtain k rets where
        ih: "eval_episodes c cfg a1 n1 (Suc k) = Inr (a', rets, ns')"
          "ne' = ne + 1 + 1 + int k" "length rets = Suc k" "tot' = tot + ret + sum_list rets"
          "num_eval_steps cfg < ns'"
          "\<forall>j. 0 < j \<and> j \<le> k \<longrightarrow> within_budget c cfg a1 n1 j"
        by (elim exE conjE) (simp only: add.assoc [symmetric])
      have e: "eval_episodes c cfg a ns (Suc (Suc k)) = Inr (a', ret # rets, ns')"
        using one ih(1) by simp
      have b: "\<forall>j. 0 < j \<and> j \<le> Suc k \<longrightarrow> within_budget c cfg a ns j"
      proof (intro allI impI)
        fix j :: nat
        assume j: "0 < j \<and> j \<le> Suc k"
        then obtain j' where j': "j = Suc j'" by (cases j) auto
        show "within_budget c cfg a ns j"
        proof (cases j')
          case 0
          with j' one False show ?thesis by (simp add: within_budget_def)
        next
          case (Suc i)
          with j j' ih(6) have "within_budget c cfg a1 n1 j'" by simp
          with j' one show ?thesis by (simp only: within_budget_Suc)
        qed
      qed
      from e b ih have "eval_episodes c cfg a ns (Suc (Suc k)) = Inr (a', ret # rets, ns') \<and>
        ne' = ne + 1 + int (Suc k) \<and> length (ret # rets) = Suc (Suc k) \<and>
        tot' = tot + sum_list (ret # rets) \<and> num_eval_steps cfg < ns' \<and>
        (\<forall>j. 0 < j \<and> j \<le> Suc k \<longrightarrow> within_budget c cfg a ns j)"
        by simp
      then show ?thesis by blast
    qed
  qed
qed

lemma eval_loop_terminates:
  assumes "0 \<le> max_episode_steps cfg"
  shows "eval_loop c cfg a ne ns tot \<noteq> None"
proof (induction "nat (num_eval_steps cfg + 1 - ns)" arbitrary: a ne ns tot rule: less_induct)
  case less
  show ?case
  proof (cases "eval_one c cfg a ns")
    case (Inl e)
    then show ?thesis by (subst eval_loop.simps) simp
  next
    case (Inr r)
    obtain a1 ret n1 where r: "r = (a1, ret, n1)" by (cases r)
    from Inr r assms have n1: "ns + 1 \<le> n1" using eval_one_steps [of c cfg a ns a1 ret n1] by simp
    show ?thesis
    proof (cases "py_div (tot + ret) (ne + 1)")
      case (Inl e)
      with Inr r show ?thesis by (subst eval_loop.simps) simp
    next
      case d: (Inr d)
      show ?thesis
      proof (cases "num_eval_steps cfg < n1")
        case True
        with Inr r d show ?thesis by (subst eval_loop.simps) simp
      next
        case False
        with n1 have "nat (num_eval_steps cfg + 1 - n1) < nat (num_eval_steps cfg + 1 - ns)"
          by linarith
        from less [OF this] have "eval_loop c cfg a1 (ne + 1) n1 (tot + ret) \<noteq> None" .
        with Inr r d False show ?thesis by (subst eval_loop.simps) simp
      qed
    qed
  qed
qed

subsection \<open>The sweep does not read the training epsilon\<close>

lemma is_random_eps:
  "is_random c cfg (a\<lparr>epsilon_train := e\<rparr>) True =
   (fst (is_random c cfg a True), (snd (is_random c cfg a True))\<lparr>epsilon_train := e\<rparr>)"
  by (simp add: is_random_def Let_def)

lemma explore_eps:
  "explore c cfg (a\<lparr>epsilon_train := e\<rparr>) =
   (fst (explore c cfg a), (snd (explore c cfg a))\<lparr>epsilon_train := e\<rparr>)"
  by (simp add: explore_def Let_def)

lemma exploit_eps: "exploit c cfg (a\<lparr>epsilon_train := e\<rparr>) state = exploit c cfg a state"
  by (simp add: exploit_def)

lemma eval_action_eps:
  "eval_action c cfg (a\<lparr>epsilon_train := e\<rparr>) state =
   (case eval_action c cfg a state of
      Inl x \<Rightarrow> Inl x
    | Inr (action, a1) \<Rightarrow> Inr (action, a1\<lparr>epsilon_train := e\<rparr>))"
  by (simp add: eval_action_def is_random_eps explore_eps exploit_eps Let_def case_prod_beta
        split: sum.splits)

lemma eps_test_env_comm:
  "a\<lparr>epsilon_train := e, test_env := t\<rparr> = a\<lparr>test_env := t, epsilon_train := e\<rparr>"
  by simp

lemma eval_episode_stop:
  "dn \<or> max_episode_steps cfg < es \<Longrightarrow> eval_episode c cfg a state dn es er ns = Inr (a, er, ns)"
  by (subst eval_episode.simps) auto

lemma eval_episode_step:
  "\<not> dn \<Longrightarrow> es \<le> max_episode_steps cfg \<Longrightarrow>
   eval_episode c cfg a state dn es er ns =
     (case eval_action c cfg a state of
        Inl e \<Rightarrow> Inl e
      | Inr (action, a1) \<Rightarrow>
          (case env_step c (test_env a1) action of
             ((next_state, reward, dn1), te) \<Rightarrow>
               eval_episode c cfg (a1\<lparr>test_env := te\<rparr>) next_state dn1
                 (es + 1) (er + reward) (ns + 1)))"
  by (subst eval_episode.simps) simp

lemma eval_episode_eps:
  "eval_episode c cfg (a\<lparr>epsilon_train := e\<rparr>) state dn es er ns =
   (case eval_episode c cfg a state dn es er ns of
      Inl x \<Rightarrow> Inl x
    | Inr (a1, r) \<Rightarrow> Inr (a1\<lparr>epsilon_train := e\<rparr>, r))"
proof (induction c cfg a state dn es er ns rule: eval_episode.induct)
  case (1 c cfg a state dn es er ns)
  show ?case
  proof (cases "\<not> dn \<and> es \<le> max_episode_steps cfg")
    case False
    then have "dn \<or> max_episode_steps cfg < es" by auto
    then show ?thesis by (simp add: eval_episode_stop)
  next
    case True
    show ?thesis
    proof (cases "eval_action c cfg a state")
      case (Inl x)
      with True show ?thesis
        by (simp add: eval_episode_step eval_action_eps)
    next
      case (Inr b)
      obtain action a1 where b: "b = (action, a1)" by (cases b)
      obtain next_state reward dn1 te where
        st: "env_step c (test_env a1) action = ((next_state, reward, dn1), te)"
        by (metis prod_cases3 surj_pair)
      note ih = "1.IH" [OF True Inr b [symmetric] st [symmetric] refl refl]
      from True Inr b st have l:
        "eval_episode c cfg (a\<lparr>epsilon_train := e\<rparr>) state dn es er ns =
         eval_episode c cfg (a1\<lparr>test_env := te, epsilon_train := e\<rparr>) next_state dn1 (es + 1) (er + reward) (ns + 1)"
        by (simp add: eval_episode_step eval_action_eps eps_test_env_comm)
      from True Inr b st have r:
        "eval_episode c cfg a state dn es er ns =
         eval_episode c cfg (a1\<lparr>test_env := te\<rparr>) next_state dn1 (es + 1) (er + reward) (ns + 1)"
        by (simp add: eval_episode_step)
      from ih l r show ?thesis by simp
    qed
  qed
qed

lemma eval_one_eps:
  "eval_one c cfg (a\<lparr>epsilon_train := e\<rparr>) ns =
   (case eval_one c cfg a ns of
      Inl x \<Rightarrow> Inl x
    | Inr (a1, r) \<Rightarrow> Inr (a1\<lparr>epsilon_train := e\<rparr>, r))"
proof -
  have "eval_episode c cfg (a\<lparr>test_env := snd (env_reset c (test_env a))\<rparr>\<lparr>epsilon_train := e\<rparr>)
          (fst (env_reset c (test_env a))) False 0 0 ns =
        (case eval_episode c cfg (a\<lparr>test_env := snd (env_reset c (test_env a))\<rparr>)
                (fst (env_reset c (test_env a))) False 0 0 ns of
           Inl x \<Rightarrow> Inl x
         | Inr (a1, r) \<Rightarrow> Inr (a1\<lparr>epsilon_train := e\<rparr>, r))"
    by (rule eval_episode_eps)
  then show ?thesis by (simp add: eval_one_def Let_def eps_test_env_comm)
qed

lemma eval_loop_eps:
  assumes "eval_loop c cfg a ne ns tot = Some y"
  shows "eval_loop c cfg (a\<lparr>epsilon_train := e\<rparr>) ne ns tot =
         Some (case y of Inl x \<Rightarrow> Inl x | Inr (a1, r) \<Rightarrow> Inr (a1\<lparr>epsilon_train := e\<rparr>, r))"
proof (rule eval_loop.raw_induct [where P = "\<lambda>c cfg a ne ns tot y.
     eval_loop c cfg (a\<lparr>epsilon_train := e\<rparr>) ne ns tot =
       Some (case y of Inl x \<Rightarrow> Inl x | Inr (a1, r) \<Rightarrow> Inr (a1\<lparr>epsilon_train := e\<rparr>, r))",
     OF _ assms], goal_cases)
  case (1 f c cfg a ne ns tot y)
  show ?case
  proof (cases "eval_one c cfg a ns")
    case (Inl x)
    with "1"(2) have "y = Inl x" by simp
    with Inl show ?thesis by (subst eval_loop.simps) (simp add: eval_one_eps)
  next
    case (Inr r)
    obtain a1 ret n1 where r: "r = (a1, ret, n1)" by (cases r)
    show ?thesis
    proof (cases "py_div (tot + ret) (ne + 1)")
      case (Inl x)
      with "1"(2) Inr r have "y = Inl x" by simp
      with Inl Inr r show ?thesis by (subst eval_loop.simps) (simp add: eval_one_eps)
    next
      case d: (Inr d)
      show ?thesis
      proof (cases "num_eval_steps cfg < n1")
        case True
        with "1"(2) Inr r d have "y = Inr (a1, ne + 1, n1, tot + ret)" by simp
        with True Inr r d show ?thesis by (subst eval_loop.simps) (simp add: eval_one_eps)
      next
        case False
        with "1"(2) Inr r d have "f c cfg a1 (ne + 1) n1 (tot + ret) = Some y" by simp
        from "1"(1) [OF this] False Inr r d show ?thesis
          by (subst eval_loop.simps) (simp add: eval_one_eps)
      qed
    qed
  qed
qed

lemma eval_episodes_frame:
  "eval_episodes c cfg a ns k = Inr (a', rets, ns') \<Longrightarrow>
   \<exists>te r. a' = a\<lparr>test_env := te, rng := r\<rparr>"
proof (induction k arbitrary: a ns rets)
  case 0
  then have "a' = a\<lparr>test_env := test_env a, rng := rng a\<rparr>" by simp
  then show ?case by blast
next
  case (Suc k)
  from Suc.prems obtain a1 ret n1 where one: "eval_one c cfg a ns = Inr (a1, ret, n1)"
    by (auto split: sum.splits)
  with Suc.prems obtain rets1 where "eval_episodes c cfg a1 n1 k = Inr (a', rets1, ns')"
    by (auto split: sum.splits)
  from Suc.IH [OF this] obtain te r where a': "a' = a1\<lparr>test_env := te, rng := r\<rparr>" by blast
  from eval_one_frame [OF one] obtain te1 r1 where "a1 = a\<lparr>test_env := te1, rng := r1\<rparr>" by blast
  with a' have "a' = a\<lparr>test_env := te, rng := r\<rparr>" by simp
  then show ?case by blast
qed

lemma eval_loop_frame:
  assumes "eval_loop c cfg a ne ns tot = Some (Inr (a', ne', ns', tot'))"
  shows "\<exists>te r. a' = a\<lparr>test_env := te, rng := r\<rparr>"
proof -
  from eval_loop_sound [OF assms, rule_format, OF refl]
  obtain k rets where "eval_episodes c cfg a ns (Suc k) = Inr (a', rets, ns')" by blast
  then show ?thesis by (rule eval_episodes_frame)
qed

lemma eval_loop_episodes:
  assumes "eval_loop c cfg a ne ns tot = Some (Inr (a', ne', ns', tot'))"
  shows "ne + 1 \<le> ne'"
proof -
  from eval_loop_sound [OF assms, rule_format, OF refl]
  obtain k where "ne' = ne + 1 + int k" by blast
  then show ?thesis by simp
qed

lemma eval_loop_error:
  assumes "eval_loop c cfg a ne ns tot = Some y"
  shows "0 \<le> ne \<longrightarrow> y \<noteq> Inl ZeroDivisionError"
proof (rule eval_loop.raw_induct [where P = "\<lambda>c cfg a ne ns tot y.
     0 \<le> ne \<longrightarrow> y \<noteq> Inl ZeroDivisionError", OF _ assms], goal_cases)
  case (1 f c cfg a ne ns tot y)
  show ?case
  proof
    assume ne: "0 \<le> ne"
    show "y \<noteq> Inl ZeroDivisionError"
    proof (cases "eval_one c cfg a ns")
      case (Inl x)
      with "1"(2) have "y = Inl x" by simp
      with eval_one_error [OF Inl] show ?thesis by simp
    next
      case (Inr r)
      obtain a1 ret n1 where r: "r = (a1, ret, n1)" by (cases r)
      from ne have d: "py_div (tot + ret) (ne + 1) = Inr ((tot + ret) / real_of_int (ne + 1))"
        by (simp add: py_div_def)
      show ?thesis
      proof (cases "num_eval_steps cfg < n1")
        case True
        with "1"(2) Inr r d show ?thesis by auto
      next
        case False
        with "1"(2) Inr r d have "f c cfg a1 (ne + 1) n1 (tot + ret) = Some y" by simp
        from "1"(1) [OF this] ne show ?thesis by simp
      qed
    qed
  qed
qed

subsection \<open>What \<^verbatim>\<open>evaluate\<close> returns\<close>

lemma evaluate_result:
  assumes "evaluate c cfg a = Some (Inr a')"
  shows "\<exists>a1 ne ns tot.
     eval_loop c cfg (a\<lparr>online_net := net_eval c (online_net a)\<rparr>) 0 0 0 = Some (Inr (a1, ne, ns, tot)) \<and>
     1 \<le> ne \<and>
     a' = (if gt_score (tot / real_of_int ne) (best_eval_score a1)
           then (save_models c ''best'' (a1\<lparr>best_eval_score := Fin (tot / real_of_int ne)\<rparr>))
                  \<lparr>console := console a1 @ [Eval (steps a1) (tot / real_of_int ne)]\<rparr>
           else a1\<lparr>console := console a1 @ [Eval (steps a1) (tot / real_of_int ne)]\<rparr>)"
proof -
  let ?a0 = "a\<lparr>online_net := net_eval c (online_net a)\<rparr>"
  have "\<exists>x. eval_loop c cfg ?a0 0 0 0 = Some (Inr x)"
  proof (cases "eval_loop c cfg ?a0 0 0 0")
    case None
    with assms show ?thesis by (simp add: evaluate_def rbind_def)
  next
    case (Some y)
    with assms show ?thesis by (cases y) (auto simp: evaluate_def rbind_def)
  qed
  then obtain x where x: "eval_loop c cfg ?a0 0 0 0 = Some (Inr x)" by (elim exE)
  obtain a1 ne ns tot where x4: "x = (a1, ne, ns, tot)" by (cases x)
  note loop = x [unfolded x4]
  from eval_loop_episodes [OF loop] have ne: "1 \<le> ne" by simp
  then have d: "py_div tot ne = Inr (tot / real_of_int ne)" by (simp add: py_div_def)
  from assms loop d have "a' = (if gt_score (tot / real_of_int ne) (best_eval_score a1)
           then (save_models c ''best'' (a1\<lparr>best_eval_score := Fin (tot / real_of_int ne)\<rparr>))
                  \<lparr>console := console a1 @ [Eval (steps a1) (tot / real_of_int ne)]\<rparr>
           else a1\<lparr>console := console a1 @ [Eval (steps a1) (tot / real_of_int ne)]\<rparr>)"
    by (simp add: evaluate_def rbind_def ok_def Let_def save_models_def split: if_splits)
  with loop ne show ?thesis by blast
qed

lemma evaluate_terminates:
  assumes "0 \<le> max_episode_steps cfg"
  shows "evaluate c cfg a \<noteq> None"
proof -
  let ?a0 = "a\<lparr>online_net := net_eval c (online_net a)\<rparr>"
  from eval_loop_terminates [OF assms] obtain y where y: "eval_loop c cfg ?a0 0 0 0 = Some y"
    by blast
  show ?thesis
  proof (cases y)
    case (Inl e)
    with y show ?thesis by (simp add: evaluate_def rbind_def)
  next
    case (Inr x)
    with y show ?thesis
      by (simp add: evaluate_def rbind_def ok_def raise_def Let_def split: prod.splits sum.splits)
  qed
qed

lemma evaluate_error: "evaluate c cfg a \<noteq> Some (Inl ZeroDivisionError)"
proof
  let ?a0 = "a\<lparr>online_net := net_eval c (online_net a)\<rparr>"
  assume h: "evaluate c cfg a = Some (Inl ZeroDivisionError)"
  show False
  proof (cases "eval_loop c cfg ?a0 0 0 0")
    case None
    with h show ?thesis by (simp add: evaluate_def rbind_def)
  next
    case (Some y)
    show ?thesis
    proof (cases y)
      case (Inl e)
      with Some h have "e = ZeroDivisionError" by (simp add: evaluate_def rbind_def)
      with Inl eval_loop_error [OF Some] show ?thesis by simp
    next
      case (Inr x)
      obtain a1 ne ns tot where x4: "x = (a1, ne, ns, tot)" by (cases x)
      from eval_loop_episodes [OF Some [unfolded Inr x4]] have "1 \<le> ne" by simp
      then have "py_div tot ne = Inr (tot / real_of_int ne)" by (simp add: py_div_def)
      with h Some Inr x4 show ?thesis
        by (simp add: evaluate_def rbind_def ok_def Let_def)
    qed
  qed
qed

lemma evaluate_frame:
  assumes "evaluate c cfg a = Some (Inr a')"
  shows "\<exists>te r b sv l. a' = a\<lparr>online_net := net_eval c (online_net a), test_env := te, rng := r,
            best_eval_score := b, saved := sv, console := l\<rparr> \<and> score_le (best_eval_score a) b"
proof -
  let ?a0 = "a\<lparr>online_net := net_eval c (online_net a)\<rparr>"
  from evaluate_result [OF assms] obtain a1 ne ns tot where
    loop: "eval_loop c cfg ?a0 0 0 0 = Some (Inr (a1, ne, ns, tot))" and
    a': "a' = (if gt_score (tot / real_of_int ne) (best_eval_score a1)
           then (save_models c ''best'' (a1\<lparr>best_eval_score := Fin (tot / real_of_int ne)\<rparr>))
                  \<lparr>console := console a1 @ [Eval (steps a1) (tot / real_of_int ne)]\<rparr>
           else a1\<lparr>console := console a1 @ [Eval (steps a1) (tot / real_of_int ne)]\<rparr>)"
    by blast
  from eval_loop_frame [OF loop] obtain te r where a1: "a1 = ?a0\<lparr>test_env := te, rng := r\<rparr>"
    by blast
  have refl: "score_le s s" for s by (cases s) simp_all
  have up: "gt_score m s \<Longrightarrow> score_le s (Fin m)" for m s by (cases s) simp_all
  show ?thesis
  proof (cases "gt_score (tot / real_of_int ne) (best_eval_score a1)")
    case True
    with a' a1 have "a' = a\<lparr>online_net := net_eval c (online_net a), test_env := te, rng := r,
        best_eval_score := Fin (tot / real_of_int ne),
        saved := saved a @ [(''best'', state_dict c (net_eval c (online_net a)), state_dict c (target_net a))],
        console := console a @ [Eval (steps a) (tot / real_of_int ne)]\<rparr>"
      by (simp add: save_models_def)
    moreover from True a1 have "score_le (best_eval_score a) (Fin (tot / real_of_int ne))"
      by (simp add: up)
    ultimately show ?thesis by blast
  next
    case False
    with a' a1 have "a' = a\<lparr>online_net := net_eval c (online_net a), test_env := te, rng := r,
        best_eval_score := best_eval_score a, saved := saved a,
        console := console a @ [Eval (steps a) (tot / real_of_int ne)]\<rparr>"
      by simp
    moreover have "score_le (best_eval_score a) (best_eval_score a)" by (rule refl)
    ultimately show ?thesis by blast
  qed
qed

lemma eps_online_comm:
  "a\<lparr>epsilon_train := e, online_net := n\<rparr> = a\<lparr>online_net := n, epsilon_train := e\<rparr>"
  by simp

lemma evaluate_eps:
  assumes "evaluate c cfg a = Some (Inr a')"
  shows "evaluate c cfg (a\<lparr>epsilon_train := e\<rparr>) = Some (Inr (a'\<lparr>epsilon_train := e\<rparr>))"
proof -
  let ?a0 = "a\<lparr>online_net := net_eval c (online_net a)\<rparr>"
  from evaluate_result [OF assms] obtain a1 ne ns tot where
    loop: "eval_loop c cfg ?a0 0 0 0 = Some (Inr (a1, ne, ns, tot))" and ne: "1 \<le> ne" and
    a': "a' = (if gt_score (tot / real_of_int ne) (best_eval_score a1)
           then (save_models c ''best'' (a1\<lparr>best_eval_score := Fin (tot / real_of_int ne)\<rparr>))
                  \<lparr>console := console a1 @ [Eval (steps a1) (tot / real_of_int ne)]\<rparr>
           else a1\<lparr>console := console a1 @ [Eval (steps a1) (tot / real_of_int ne)]\<rparr>)"
    by blast
  from ne have d: "py_div tot ne = Inr (tot / real_of_int ne)" by (simp add: py_div_def)
  have "eval_loop c cfg (?a0\<lparr>epsilon_train := e\<rparr>) 0 0 0 = Some (Inr (a1\<lparr>epsilon_train := e\<rparr>, ne, ns, tot))"
    using eval_loop_eps [OF loop, of e] by simp
  then have "eval_loop c cfg (a\<lparr>epsilon_train := e, online_net := net_eval c (online_net a)\<rparr>) 0 0 0 =
        Some (Inr (a1\<lparr>epsilon_train := e\<rparr>, ne, ns, tot))"
    by (simp only: eps_online_comm)
  with d a' show ?thesis
    by (simp add: evaluate_def rbind_def ok_def Let_def save_models_def)
qed

subsection \<open>The greedy action\<close>

lemma argmax_greatest:
  "xs \<noteq> [] \<Longrightarrow>
   argmax xs < length xs \<and> (\<forall>j<length xs. xs ! j \<le> xs ! argmax xs) \<and>
   (\<forall>j<argmax xs. xs ! j < xs ! argmax xs)"
proof (induction xs rule: argmax.induct)
  case 1
  then show ?case by simp
next
  case (2 x)
  then show ?case by simp
next
  case (3 x y ys)
  let ?r = "y # ys"
  let ?j = "argmax ?r"
  from "3.IH" have ih: "?j < length ?r" "\<forall>i<length ?r. ?r ! i \<le> ?r ! ?j" "\<forall>i<?j. ?r ! i < ?r ! ?j"
    by simp_all
  show ?case
  proof (cases "x < ?r ! ?j")
    case True
    then have am: "argmax (x # ?r) = Suc ?j" by (simp add: Let_def)
    have "\<forall>i<length (x # ?r). (x # ?r) ! i \<le> (x # ?r) ! Suc ?j"
    proof (intro allI impI)
      fix i assume "i < length (x # ?r)"
      then show "(x # ?r) ! i \<le> (x # ?r) ! Suc ?j"
        using True ih(2) by (cases i) auto
    qed
    moreover have "\<forall>i<Suc ?j. (x # ?r) ! i < (x # ?r) ! Suc ?j"
    proof (intro allI impI)
      fix i assume "i < Suc ?j"
      then show "(x # ?r) ! i < (x # ?r) ! Suc ?j"
        using True ih(3) by (cases i) auto
    qed
    ultimately show ?thesis using am ih(1) by simp
  next
    case False
    then have am: "argmax (x # ?r) = 0" by (simp add: Let_def)
    have "\<forall>i<length (x # ?r). (x # ?r) ! i \<le> (x # ?r) ! 0"
    proof (intro allI impI)
      fix i assume i: "i < length (x # ?r)"
      show "(x # ?r) ! i \<le> (x # ?r) ! 0"
      proof (cases i)
        case 0
        then show ?thesis by simp
      next
        case (Suc i')
        with i ih(2) have "?r ! i' \<le> ?r ! ?j" by simp
        with False Suc show ?thesis by simp
      qed
    qed
    then show ?thesis using am by simp
  qed
qed

subsection \<open>What one training step changes\<close>

lemma score_le_refl: "score_le s s"
  by (cases s) simp_all

lemma score_le_trans: "score_le s t \<Longrightarrow> score_le t u \<Longrightarrow> score_le s u"
  by (cases s; cases t; cases u) simp_all

lemma train_action_frame:
  assumes "train_action c cfg a state = Inr (action, a1)"
  shows "\<exists>r me e. a1 = a\<lparr>rng := r, morl_env := me, env := e\<rparr>"
proof -
  obtain r where r: "snd (is_random c cfg a False) = a\<lparr>rng := r\<rparr>"
    using is_random_frame [of c cfg a False] by blast
  obtain r' where r': "snd (explore c cfg (a\<lparr>rng := r\<rparr>)) = a\<lparr>rng := r, rng := r'\<rparr>"
    using explore_frame [of c cfg "a\<lparr>rng := r\<rparr>"] by auto
  show ?thesis
  proof (cases "fst (is_random c cfg a False)")
    case True
    with assms r r' have "a1 = a\<lparr>rng := r', morl_env := morl_env a, env := env a\<rparr>"
      by (auto simp: train_action_def Let_def)
    then show ?thesis by blast
  next
    case False
    show ?thesis
    proof (cases "use_morl cfg")
      case True
      with assms False r have
        "a1 = a\<lparr>rng := r, morl_env := fst (snd (get_states c (morl_env a) (env a))),
               env := snd (snd (get_states c (morl_env a) (env a)))\<rparr>"
        by (auto simp: train_action_def Let_def split: sum.splits)
      then show ?thesis by blast
    next
      case nm: False
      with assms False r have "a1 = a\<lparr>rng := r, morl_env := morl_env a, env := env a\<rparr>"
        by (auto simp: train_action_def Let_def split: sum.splits)
      then show ?thesis by blast
    qed
  qed
qed

lemma train_interact_effect:
  assumes "train_interact c cfg a state = Inr (a1, next_state, reward, dn)"
  shows "steps a1 = steps a + 1 \<and> epsilon_train a1 = epsilon_train a \<and>
         episodes a1 = episodes a \<and> train_return a1 = train_return a \<and>
         best_eval_score a1 = best_eval_score a \<and>
         (if use_morl cfg
          then memory a1 = memory a \<and>
               (\<exists>x. morl_memory a1 = morl_add c (morl_memory a) x \<and> next_states x = next_state \<and>
                    rewards x = reward \<and> dones x = dn)
          else morl_memory a1 = morl_memory a \<and>
               (\<exists>action. memory a1 =
                  mem_append c (memory a) (state, action, reward, next_state, dn)))"
proof -
  let ?z = "if use_morl cfg then reset_noise c (online_net a) (rng a)
            else sample_noise c (online_net a) (rng a)"
  let ?a0 = "a\<lparr>online_net := fst ?z, rng := snd ?z\<rparr>"
  have "\<exists>b. train_action c cfg ?a0 state = Inr b"
  proof (cases "train_action c cfg ?a0 state")
    case (Inl e)
    with assms show ?thesis by (simp add: train_interact_def Let_def)
  next
    case (Inr b)
    then show ?thesis by (rule exI)
  qed
  then obtain b where b: "train_action c cfg ?a0 state = Inr b" by (elim exE)
  obtain action a2 where b2: "b = (action, a2)" by (cases b)
  note ta = b [unfolded b2]
  from train_action_frame [OF ta] obtain r me e0 where
    a2: "a2 = ?a0\<lparr>rng := r, morl_env := me, env := e0\<rparr>"
    by blast
  show ?thesis
  proof (cases "use_morl cfg")
    case True
    let ?x = "morl_step c (morl_env a2) (env a2) action"
    from assms ta True have a1:
      "a1 = a2\<lparr>morl_env := fst (snd ?x), env := snd (snd ?x),
               morl_memory := morl_add c (morl_memory a2) (fst ?x), steps := steps a2 + 1\<rparr>"
      by (simp add: train_interact_def Let_def)
    from assms ta True have out:
      "next_states (fst ?x) = next_state \<and> rewards (fst ?x) = reward \<and> dones (fst ?x) = dn"
      by (simp add: train_interact_def Let_def)
    have "morl_memory a1 = morl_add c (morl_memory a2) (fst ?x)"
      by (subst a1) simp
    moreover have "morl_memory a2 = morl_memory a"
      by (subst a2) simp
    ultimately have mm: "morl_memory a1 = morl_add c (morl_memory a) (fst ?x)"
      by simp
    from mm out have ex: "\<exists>x. morl_memory a1 = morl_add c (morl_memory a) x \<and>
        next_states x = next_state \<and> rewards x = reward \<and> dones x = dn"
      by blast
    have f: "steps a1 = steps a + 1 \<and> epsilon_train a1 = epsilon_train a \<and>
         episodes a1 = episodes a \<and> train_return a1 = train_return a \<and>
         best_eval_score a1 = best_eval_score a \<and> memory a1 = memory a"
      unfolding a1 a2 by simp
    from f ex True show ?thesis by simp
  next
    case False
    obtain ns' rw d e where st: "env_step c (env a2) action = ((ns', rw, d), e)"
      by (metis prod_cases3 surj_pair)
    from assms ta False st have a1:
      "a1 = a2\<lparr>env := e, memory := mem_append c (memory a2) (state, action, rw, ns', d),
               steps := steps a2 + 1\<rparr>"
      by (auto simp: train_interact_def Let_def)
    from assms ta False st have out: "ns' = next_state \<and> rw = reward \<and> d = dn"
      by (auto simp: train_interact_def Let_def)
    have "memory a1 = mem_append c (memory a) (state, action, rw, ns', d)"
      unfolding a1 a2 by simp
    with out have ex: "\<exists>action. memory a1 =
        mem_append c (memory a) (state, action, reward, next_state, dn)"
      by blast
    have f: "steps a1 = steps a + 1 \<and> epsilon_train a1 = epsilon_train a \<and>
         episodes a1 = episodes a \<and> train_return a1 = train_return a \<and>
         best_eval_score a1 = best_eval_score a \<and> morl_memory a1 = morl_memory a"
      unfolding a1 a2 by simp
    from f ex False show ?thesis by simp
  qed
qed

lemma train_interact_action:
  assumes "train_interact c cfg a state = Inr (a1, next_state, reward, dn)"
  shows "\<exists>action a2.
     train_action c cfg
       (a\<lparr>online_net := fst (if use_morl cfg then reset_noise c (online_net a) (rng a)
                               else sample_noise c (online_net a) (rng a)),
          rng := snd (if use_morl cfg then reset_noise c (online_net a) (rng a)
                      else sample_noise c (online_net a) (rng a))\<rparr>) state = Inr (action, a2) \<and>
     (if use_morl cfg
      then \<exists>x. morl_step c (morl_env a2) (env a2) action = (x, morl_env a1, env a1) \<and>
               morl_memory a1 = morl_add c (morl_memory a) x \<and> next_states x = next_state \<and>
               rewards x = reward \<and> dones x = dn
      else env_step c (env a2) action = ((next_state, reward, dn), env a1) \<and>
           memory a1 = mem_append c (memory a) (state, action, reward, next_state, dn))"
proof -
  let ?z = "if use_morl cfg then reset_noise c (online_net a) (rng a)
            else sample_noise c (online_net a) (rng a)"
  let ?a0 = "a\<lparr>online_net := fst ?z, rng := snd ?z\<rparr>"
  have "\<exists>b. train_action c cfg ?a0 state = Inr b"
  proof (cases "train_action c cfg ?a0 state")
    case (Inl e)
    with assms show ?thesis by (simp add: train_interact_def Let_def)
  next
    case (Inr b)
    then show ?thesis by (rule exI)
  qed
  then obtain b where b: "train_action c cfg ?a0 state = Inr b" by (elim exE)
  obtain action a2 where b2: "b = (action, a2)" by (cases b)
  note ta = b [unfolded b2]
  from train_action_frame [OF ta] obtain r me e0 where
    a2: "a2 = ?a0\<lparr>rng := r, morl_env := me, env := e0\<rparr>"
    by blast
  have mem2: "memory a2 = memory a" by (subst a2) simp
  have mm2: "morl_memory a2 = morl_memory a" by (subst a2) simp
  have "if use_morl cfg
      then \<exists>x. morl_step c (morl_env a2) (env a2) action = (x, morl_env a1, env a1) \<and>
               morl_memory a1 = morl_add c (morl_memory a) x \<and> next_states x = next_state \<and>
               rewards x = reward \<and> dones x = dn
      else env_step c (env a2) action = ((next_state, reward, dn), env a1) \<and>
           memory a1 = mem_append c (memory a) (state, action, reward, next_state, dn)"
  proof (cases "use_morl cfg")
    case True
    obtain x me' e' where x: "morl_step c (morl_env a2) (env a2) action = (x, me', e')"
      by (metis prod_cases3)
    from assms ta True x have a1:
      "a1 = a2\<lparr>morl_env := me', env := e',
               morl_memory := morl_add c (morl_memory a2) x, steps := steps a2 + 1\<rparr>"
      by (simp add: train_interact_def Let_def)
    from assms ta True x have out:
      "next_states x = next_state \<and> rewards x = reward \<and> dones x = dn"
      by (simp add: train_interact_def Let_def)
    have "morl_memory a1 = morl_add c (morl_memory a2) x \<and> morl_env a1 = me' \<and> env a1 = e'"
      by (subst (1 2 3) a1) simp
    with mm2 x out have "morl_step c (morl_env a2) (env a2) action = (x, morl_env a1, env a1) \<and>
               morl_memory a1 = morl_add c (morl_memory a) x \<and> next_states x = next_state \<and>
               rewards x = reward \<and> dones x = dn"
      by simp
    then have "\<exists>x. morl_step c (morl_env a2) (env a2) action = (x, morl_env a1, env a1) \<and>
               morl_memory a1 = morl_add c (morl_memory a) x \<and> next_states x = next_state \<and>
               rewards x = reward \<and> dones x = dn"
      by (rule exI)
    with True show ?thesis by simp
  next
    case False
    obtain ns' rw d e where st: "env_step c (env a2) action = ((ns', rw, d), e)"
      by (metis prod_cases3 surj_pair)
    from assms ta False st have a1:
      "a1 = a2\<lparr>env := e, memory := mem_append c (memory a2) (state, action, rw, ns', d),
               steps := steps a2 + 1\<rparr>"
      by (auto simp: train_interact_def Let_def)
    from assms ta False st have out: "ns' = next_state \<and> rw = reward \<and> d = dn"
      by (auto simp: train_interact_def Let_def)
    have "memory a1 = mem_append c (memory a2) (state, action, rw, ns', d) \<and> env a1 = e"
      by (subst (1 2) a1) simp
    with mem2 st out False show ?thesis by simp
  qed
  with ta show ?thesis by blast
qed

lemma learn_step_frame:
  "steps (learn_step c a) = steps a \<and> epsilon_train (learn_step c a) = epsilon_train a \<and>
   episodes (learn_step c a) = episodes a \<and> train_return (learn_step c a) = train_return a \<and>
   best_eval_score (learn_step c a) = best_eval_score a"
  by (simp add: learn_step_def Let_def)

lemma learn_and_evaluate_frame:
  assumes "learn_and_evaluate c cfg a = Some (Inr a')"
  shows "steps a' = steps a \<and> epsilon_train a' = epsilon_train a \<and>
         episodes a' = episodes a \<and> train_return a' = train_return a \<and>
         score_le (best_eval_score a) (best_eval_score a')"
proof -
  have "\<exists>upd. is_update cfg a = Inr upd"
  proof (cases "is_update cfg a")
    case (Inl e)
    with assms show ?thesis by (simp add: learn_and_evaluate_def raise_def)
  next
    case (Inr upd)
    then show ?thesis by (rule exI)
  qed
  then obtain upd where upd: "is_update cfg a = Inr upd" by (elim exE)
  let ?a1 = "if upd then learn_step c a else a"
  have f1: "steps ?a1 = steps a \<and> epsilon_train ?a1 = epsilon_train a \<and>
         episodes ?a1 = episodes a \<and> train_return ?a1 = train_return a \<and>
         best_eval_score ?a1 = best_eval_score a"
    using learn_step_frame [of c a] by simp
  have "\<exists>m. py_mod (steps ?a1) (eval_interval cfg) = Inr m"
  proof (cases "py_mod (steps ?a1) (eval_interval cfg)")
    case (Inl e)
    with assms upd show ?thesis by (simp add: learn_and_evaluate_def raise_def Let_def)
  next
    case (Inr m)
    then show ?thesis by (rule exI)
  qed
  then obtain m where m: "py_mod (steps ?a1) (eval_interval cfg) = Inr m" by (elim exE)
  show ?thesis
  proof (cases "m = 0")
    case False
    with assms upd m have "a' = ?a1" by (simp add: learn_and_evaluate_def Let_def ok_def)
    with f1 show ?thesis by (simp add: score_le_refl)
  next
    case True
    have "\<exists>a2. evaluate c cfg ?a1 = Some (Inr a2)"
    proof (cases "evaluate c cfg ?a1")
      case None
      with assms upd m True show ?thesis
        by (simp add: learn_and_evaluate_def Let_def rbind_def)
    next
      case (Some y)
      with assms upd m True show ?thesis
        by (cases y) (simp_all add: learn_and_evaluate_def Let_def rbind_def)
    qed
    then obtain a2 where ev: "evaluate c cfg ?a1 = Some (Inr a2)" by (elim exE)
    from assms upd m True ev have a': "a' = (save_models c ''final'' a2)
          \<lparr>online_net := net_train c (online_net (save_models c ''final'' a2))\<rparr>"
      by (simp add: learn_and_evaluate_def Let_def rbind_def ok_def)
    from evaluate_frame [OF ev] obtain te r b sv l where
      a2: "a2 = ?a1\<lparr>online_net := net_eval c (online_net ?a1), test_env := te, rng := r,
            best_eval_score := b, saved := sv, console := l\<rparr>" and
      le: "score_le (best_eval_score ?a1) b"
      by blast
    have "steps a' = steps ?a1 \<and> epsilon_train a' = epsilon_train ?a1 \<and>
         episodes a' = episodes ?a1 \<and> train_return a' = train_return ?a1 \<and>
         best_eval_score a' = b"
      unfolding a' save_models_def a2 by simp
    with f1 le show ?thesis by simp
  qed
qed

lemma train_step_interval_frame:
  assumes "train_step_interval c cfg a = Some (Inr a')"
  shows "steps a' = steps a \<and> epsilon_train a' = eps_step c (epsilon_train a) \<and>
         episodes a' = episodes a \<and> train_return a' = train_return a \<and>
         score_le (best_eval_score a) (best_eval_score a')"
proof -
  let ?a1 = "a\<lparr>epsilon_train := eps_step c (epsilon_train a)\<rparr>"
  have "\<exists>m. py_mod (steps ?a1) (target_update_interval cfg) = Inr m"
  proof (cases "py_mod (steps ?a1) (target_update_interval cfg)")
    case (Inl e)
    with assms show ?thesis by (simp add: train_step_interval_def raise_def Let_def)
  next
    case (Inr m)
    then show ?thesis by (rule exI)
  qed
  then obtain m where m: "py_mod (steps ?a1) (target_update_interval cfg) = Inr m" by (elim exE)
  let ?a2 = "if m = 0 then update_target c ?a1 else ?a1"
  from assms m have "learn_and_evaluate c cfg ?a2 = Some (Inr a')"
    by (simp add: train_step_interval_def Let_def)
  from learn_and_evaluate_frame [OF this] show ?thesis
    by (simp add: update_target_def split: if_splits)
qed

subsection \<open>Training episodes and the run\<close>

lemma train_loop_stop:
  "dn \<or> max_episode_steps cfg < es \<Longrightarrow> train_loop c cfg a state dn es er = ok (a, es, er)"
  by (subst train_loop.simps) auto

lemma train_loop_step:
  "\<not> dn \<Longrightarrow> es \<le> max_episode_steps cfg \<Longrightarrow>
   train_loop c cfg a state dn es er =
     (case train_interact c cfg a state of
        Inl e \<Rightarrow> raise e
      | Inr (a1, next_state, reward, dn1) \<Rightarrow>
          (case train_step_interval c cfg a1 of
             None \<Rightarrow> None
           | Some (Inl e) \<Rightarrow> raise e
           | Some (Inr a2) \<Rightarrow>
               train_loop c cfg a2 next_state dn1 (es + 1) (er + reward)))"
  by (subst train_loop.simps) simp

lemma train_loop_effect:
  "train_loop c cfg a state dn es er = Some (Inr (a', es', er')) \<Longrightarrow>
   es \<le> es' \<and> (es' = es \<or> es' \<le> max_episode_steps cfg + 1) \<and>
   steps a' = steps a + (es' - es) \<and>
   epsilon_train a' = (eps_step c ^^ nat (es' - es)) (epsilon_train a) \<and>
   episodes a' = episodes a \<and> train_return a' = train_return a \<and>
   score_le (best_eval_score a) (best_eval_score a')"
proof (induction c cfg a state dn es er rule: train_loop.induct)
  case (1 c cfg a state dn es er)
  show ?case
  proof (cases "\<not> dn \<and> es \<le> max_episode_steps cfg")
    case False
    then have "dn \<or> max_episode_steps cfg < es" by auto
    with "1.prems" have "a' = a \<and> es' = es" by (simp add: train_loop_stop ok_def)
    then show ?thesis by (simp add: score_le_refl)
  next
    case True
    then have g: "\<not> dn" "es \<le> max_episode_steps cfg" by simp_all
    note unf = "1.prems" [unfolded train_loop_step [OF g]]
    have "\<exists>b. train_interact c cfg a state = Inr b"
    proof (cases "train_interact c cfg a state")
      case (Inl e)
      with unf show ?thesis by (simp add: raise_def)
    next
      case (Inr b)
      then show ?thesis by (rule exI)
    qed
    then obtain b where b: "train_interact c cfg a state = Inr b" by (elim exE)
    obtain a1 next_state reward dn1 where b4: "b = (a1, next_state, reward, dn1)" by (cases b)
    note ti = b [unfolded b4]
    have "\<exists>a2. train_step_interval c cfg a1 = Some (Inr a2)"
    proof (cases "train_step_interval c cfg a1")
      case None
      with unf ti show ?thesis by simp
    next
      case (Some y)
      with unf ti show ?thesis by (cases y) (simp_all add: raise_def)
    qed
    then obtain a2 where tsi: "train_step_interval c cfg a1 = Some (Inr a2)" by (elim exE)
    from unf ti tsi have rec:
      "train_loop c cfg a2 next_state dn1 (es + 1) (er + reward) = Some (Inr (a', es', er'))"
      by simp
    note ih = "1.IH" [OF True ti refl refl refl tsi refl rec]
    note i = train_interact_effect [OF ti]
    note t = train_step_interval_frame [OF tsi]
    from ih have le: "es + 1 \<le> es'" by simp
    then have n: "nat (es' - es) = Suc (nat (es' - (es + 1)))" by simp
    have e2: "epsilon_train a2 = eps_step c (epsilon_train a)" using i t by simp
    have "epsilon_train a' = (eps_step c ^^ nat (es' - (es + 1))) (eps_step c (epsilon_train a))"
      using ih e2 by simp
    then have eps: "epsilon_train a' = (eps_step c ^^ nat (es' - es)) (epsilon_train a)"
      by (simp only: n funpow_Suc_right o_apply)
    have sc: "score_le (best_eval_score a) (best_eval_score a')"
    proof (rule score_le_trans)
      show "score_le (best_eval_score a) (best_eval_score a2)" using i t by simp
      show "score_le (best_eval_score a2) (best_eval_score a')" using ih by simp
    qed
    have st: "steps a' = steps a + (es' - es)" using ih i t by simp
    have bound: "es' \<le> max_episode_steps cfg + 1"
    proof -
      from ih have "es' = es + 1 \<or> es' \<le> max_episode_steps cfg + 1" by simp
      with g show ?thesis by auto
    qed
    from le bound st eps sc ih i t show ?thesis by simp
  qed
qed

lemma episode_from_result:
  assumes "episode_from c cfg a state = Some (Inr a')"
  shows "\<exists>a1 k ret. train_loop c cfg a state False 0 0 = Some (Inr (a1, k, ret)) \<and>
     a' = a1\<lparr>train_return := stats_append c (train_return a1) ret,
             console := console a1 @ [Episode (episodes a1) k ret]\<rparr>"
proof -
  have "\<exists>x. train_loop c cfg a state False 0 0 = Some (Inr x)"
  proof (cases "train_loop c cfg a state False 0 0")
    case None
    with assms show ?thesis by (simp add: episode_from_def rbind_def)
  next
    case (Some y)
    with assms show ?thesis by (cases y) (auto simp: episode_from_def rbind_def)
  qed
  then obtain x where x: "train_loop c cfg a state False 0 0 = Some (Inr x)" by (elim exE)
  obtain a1 k ret where x3: "x = (a1, k, ret)" by (cases x)
  note loop = x [unfolded x3]
  from assms loop have "a' = a1\<lparr>train_return := stats_append c (train_return a1) ret,
      console := console a1 @ [Episode (episodes a1) k ret]\<rparr>"
    by (simp add: episode_from_def rbind_def ok_def)
  with loop show ?thesis by blast
qed

lemma episode_from_effect:
  assumes "episode_from c cfg a state = Some (Inr a')"
  shows "\<exists>k ret. 0 \<le> k \<and> (k = 0 \<or> k \<le> max_episode_steps cfg + 1) \<and>
     steps a' = steps a + k \<and>
     epsilon_train a' = (eps_step c ^^ nat k) (epsilon_train a) \<and>
     episodes a' = episodes a \<and>
     train_return a' = stats_append c (train_return a) ret \<and>
     score_le (best_eval_score a) (best_eval_score a')"
proof -
  have "\<exists>x. train_loop c cfg a state False 0 0 = Some (Inr x)"
  proof (cases "train_loop c cfg a state False 0 0")
    case None
    with assms show ?thesis by (simp add: episode_from_def rbind_def)
  next
    case (Some y)
    with assms show ?thesis by (cases y) (auto simp: episode_from_def rbind_def)
  qed
  then obtain x where x: "train_loop c cfg a state False 0 0 = Some (Inr x)" by (elim exE)
  obtain a1 es' er' where x3: "x = (a1, es', er')" by (cases x)
  note loop = x [unfolded x3]
  note eff = train_loop_effect [OF loop]
  from assms loop have a': "a' = a1\<lparr>train_return := stats_append c (train_return a1) er',
      console := console a1 @ [Episode (episodes a1) es' er']\<rparr>"
    by (simp add: episode_from_def rbind_def ok_def)
  from eff have "0 \<le> es' \<and> (es' = 0 \<or> es' \<le> max_episode_steps cfg + 1) \<and>
     steps a' = steps a + es' \<and>
     epsilon_train a' = (eps_step c ^^ nat es') (epsilon_train a) \<and>
     episodes a' = episodes a \<and>
     train_return a' = stats_append c (train_return a) er' \<and>
     score_le (best_eval_score a) (best_eval_score a')"
    unfolding a' by simp
  then show ?thesis by blast
qed

lemma train_episode_effect:
  assumes "train_episode c cfg a = Some (Inr a')"
  shows "\<exists>k ret. 0 \<le> k \<and> (k = 0 \<or> k \<le> max_episode_steps cfg + 1) \<and>
     steps a' = steps a + k \<and>
     epsilon_train a' = (eps_step c ^^ nat k) (epsilon_train a) \<and>
     episodes a' = episodes a + 1 \<and>
     train_return a' = stats_append c (train_return a) ret \<and>
     score_le (best_eval_score a) (best_eval_score a')"
proof (cases "use_morl cfg")
  case True
  let ?a2 = "a\<lparr>online_net := net_train c (online_net a), target_net := net_train c (target_net a),
               episodes := episodes a + 1\<rparr>"
  let ?g = "get_states c (morl_env ?a2) (env ?a2)"
  from assms True have
    "episode_from c cfg (?a2\<lparr>morl_env := fst (snd ?g), env := snd (snd ?g)\<rparr>) (fst ?g) = Some (Inr a')"
    by (simp add: train_episode_def Let_def)
  from episode_from_effect [OF this] show ?thesis by simp
next
  case False
  let ?a2 = "a\<lparr>online_net := net_train c (online_net a), target_net := net_train c (target_net a),
               episodes := episodes a + 1\<rparr>"
  let ?r = "env_reset c (env ?a2)"
  from assms False have "episode_from c cfg (?a2\<lparr>env := snd ?r\<rparr>) (fst ?r) = Some (Inr a')"
    by (simp add: train_episode_def Let_def)
  from episode_from_effect [OF this] show ?thesis by simp
qed

lemma train_episode_steps:
  assumes "train_episode c cfg a = Some (Inr a')"
  shows "score_le (best_eval_score a) (best_eval_score a') \<and> steps a \<le> steps a'"
proof -
  from train_episode_effect [OF assms] obtain k where
    "0 \<le> k" "steps a' = steps a + k" "score_le (best_eval_score a) (best_eval_score a')"
    by blast
  then show ?thesis by simp
qed

lemma train_episodes_score:
  "train_episodes c cfg a k = Some (Inr a') \<Longrightarrow>
   score_le (best_eval_score a) (best_eval_score a')"
proof (induction k arbitrary: a)
  case 0
  then show ?case by (simp add: ok_def score_le_refl)
next
  case (Suc k)
  have "\<exists>a1. train_episode c cfg a = Some (Inr a1)"
  proof (cases "train_episode c cfg a")
    case None
    with Suc.prems show ?thesis by (simp add: rbind_def)
  next
    case (Some y)
    with Suc.prems show ?thesis by (cases y) (simp_all add: rbind_def)
  qed
  then obtain a1 where a1: "train_episode c cfg a = Some (Inr a1)" by (elim exE)
  with Suc.prems have "train_episodes c cfg a1 k = Some (Inr a')" by (simp add: rbind_def)
  from Suc.IH [OF this] train_episode_steps [OF a1] show ?case
    by (blast intro: score_le_trans)
qed

lemma still_training_Suc:
  "train_episode c cfg a = Some (Inr a1) \<Longrightarrow>
   still_training c cfg a (Suc j) = still_training c cfg a1 j"
  by (simp add: still_training_def rbind_def)

lemma run_sound:
  assumes "run c cfg a = Some y"
  shows "\<forall>a'. y = Inr a' \<longrightarrow>
     num_steps cfg < steps a' \<and>
     (\<exists>k. train_episodes c cfg a (Suc k) = Some (Inr a') \<and>
          (\<forall>j. 0 < j \<and> j \<le> k \<longrightarrow> still_training c cfg a j))"
proof (rule run.raw_induct [where P = "\<lambda>c cfg a y. \<forall>a'. y = Inr a' \<longrightarrow>
     num_steps cfg < steps a' \<and>
     (\<exists>k. train_episodes c cfg a (Suc k) = Some (Inr a') \<and>
          (\<forall>j. 0 < j \<and> j \<le> k \<longrightarrow> still_training c cfg a j))", OF _ assms], goal_cases)
  case (1 f c cfg a y)
  show ?case
  proof (intro allI impI)
    fix a'
    assume y: "y = Inr a'"
    have "\<exists>a1. train_episode c cfg a = Some (Inr a1)"
    proof (cases "train_episode c cfg a")
      case None
      with "1"(2) show ?thesis by simp
    next
      case (Some z)
      with "1"(2) y show ?thesis by (cases z) simp_all
    qed
    then obtain a1 where a1: "train_episode c cfg a = Some (Inr a1)" by (elim exE)
    from "1"(2) a1 have body:
      "(if num_steps cfg < steps a1 then Some (Inr a1) else f c cfg a1) = Some y"
      by simp
    show "num_steps cfg < steps a' \<and>
     (\<exists>k. train_episodes c cfg a (Suc k) = Some (Inr a') \<and>
          (\<forall>j. 0 < j \<and> j \<le> k \<longrightarrow> still_training c cfg a j))"
    proof (cases "num_steps cfg < steps a1")
      case True
      with body y have "a' = a1" by simp
      with a1 True have "num_steps cfg < steps a' \<and>
        train_episodes c cfg a (Suc 0) = Some (Inr a') \<and>
        (\<forall>j. 0 < j \<and> j \<le> (0::nat) \<longrightarrow> still_training c cfg a j)"
        by (simp add: rbind_def ok_def)
      then show ?thesis by blast
    next
      case False
      with body have "f c cfg a1 = Some y" by simp
      from "1"(1) [OF this, rule_format, OF y] obtain k where
        ih: "num_steps cfg < steps a'" "train_episodes c cfg a1 (Suc k) = Some (Inr a')"
          "\<forall>j. 0 < j \<and> j \<le> k \<longrightarrow> still_training c cfg a1 j"
        by blast
      have e: "train_episodes c cfg a (Suc (Suc k)) = Some (Inr a')"
        using a1 ih(2) by (simp add: rbind_def)
      have b: "\<forall>j. 0 < j \<and> j \<le> Suc k \<longrightarrow> still_training c cfg a j"
      proof (intro allI impI)
        fix j :: nat
        assume j: "0 < j \<and> j \<le> Suc k"
        then obtain j' where j': "j = Suc j'" by (cases j) auto
        show "still_training c cfg a j"
        proof (cases j')
          case 0
          with j' a1 False show ?thesis by (simp add: still_training_def rbind_def ok_def)
        next
          case (Suc i)
          with j j' ih(3) have "still_training c cfg a1 j'" by simp
          with j' a1 show ?thesis by (simp only: still_training_Suc)
        qed
      qed
      from ih(1) e b show ?thesis by blast
    qed
  qed
qed

lemma run_complete:
  "train_episodes c cfg a (Suc k) = Some (Inr a') \<Longrightarrow> num_steps cfg < steps a' \<Longrightarrow>
   (\<forall>j. 0 < j \<and> j \<le> k \<longrightarrow> still_training c cfg a j) \<Longrightarrow>
   run c cfg a = Some (Inr a')"
proof (induction k arbitrary: a)
  case 0
  have "train_episode c cfg a = Some (Inr a')"
  proof (cases "train_episode c cfg a")
    case None
    with "0.prems"(1) show ?thesis by (simp add: rbind_def)
  next
    case (Some y)
    with "0.prems"(1) show ?thesis by (cases y) (simp_all add: rbind_def ok_def)
  qed
  with "0.prems"(2) show ?case by (subst run.simps) simp
next
  case (Suc k)
  have "\<exists>a1. train_episode c cfg a = Some (Inr a1)"
  proof (cases "train_episode c cfg a")
    case None
    with Suc.prems(1) show ?thesis by (simp add: rbind_def)
  next
    case (Some y)
    with Suc.prems(1) show ?thesis by (cases y) (simp_all add: rbind_def)
  qed
  then obtain a1 where a1: "train_episode c cfg a = Some (Inr a1)" by (elim exE)
  with Suc.prems(1) have rest: "train_episodes c cfg a1 (Suc k) = Some (Inr a')"
    by (simp add: rbind_def)
  from Suc.prems(3) have "still_training c cfg a (Suc 0)" by simp
  with a1 have notyet: "\<not> num_steps cfg < steps a1"
    by (simp add: still_training_def rbind_def ok_def)
  have "\<forall>j. 0 < j \<and> j \<le> k \<longrightarrow> still_training c cfg a1 j"
  proof (intro allI impI)
    fix j :: nat
    assume "0 < j \<and> j \<le> k"
    with Suc.prems(3) have "still_training c cfg a (Suc j)" by simp
    with a1 show "still_training c cfg a1 j" by (simp only: still_training_Suc)
  qed
  from Suc.IH [OF rest Suc.prems(2) this] have "run c cfg a1 = Some (Inr a')" .
  with a1 notyet show ?case by (subst run.simps) simp
qed

lemma train_loop_progress:
  assumes "train_loop c cfg a state dn es er = Some (Inr (a', es', er'))"
    and "\<not> dn" and "es \<le> max_episode_steps cfg"
  shows "es + 1 \<le> es'"
proof -
  note unf = assms(1) [unfolded train_loop_step [OF assms(2,3)]]
  have "\<exists>b. train_interact c cfg a state = Inr b"
  proof (cases "train_interact c cfg a state")
    case (Inl e)
    with unf show ?thesis by (simp add: raise_def)
  next
    case (Inr b)
    then show ?thesis by (rule exI)
  qed
  then obtain b where b: "train_interact c cfg a state = Inr b" by (elim exE)
  obtain a1 next_state reward dn1 where b4: "b = (a1, next_state, reward, dn1)" by (cases b)
  note ti = b [unfolded b4]
  have "\<exists>a2. train_step_interval c cfg a1 = Some (Inr a2)"
  proof (cases "train_step_interval c cfg a1")
    case None
    with unf ti show ?thesis by simp
  next
    case (Some y)
    with unf ti show ?thesis by (cases y) (simp_all add: raise_def)
  qed
  then obtain a2 where tsi: "train_step_interval c cfg a1 = Some (Inr a2)" by (elim exE)
  from unf ti tsi have
    "train_loop c cfg a2 next_state dn1 (es + 1) (er + reward) = Some (Inr (a', es', er'))"
    by simp
  from train_loop_effect [OF this] show ?thesis by simp
qed

subsection \<open>The training loop as a sequence of iterations\<close>

lemma loop_test_Suc:
  "train_interact c cfg a state = Inr (a1, next_state, reward, dn1) \<Longrightarrow>
   train_step_interval c cfg a1 = Some (Inr a2) \<Longrightarrow>
   loop_test c cfg a state dn es (Suc j) = loop_test c cfg a2 next_state dn1 (es + 1) j"
  by (simp add: loop_test_def rbind_def ok_def add.assoc
        split: option.splits sum.splits prod.splits)

lemma train_iterations_Suc:
  "train_interact c cfg a state = Inr (a1, next_state, reward, dn1) \<Longrightarrow>
   train_step_interval c cfg a1 = Some (Inr a2) \<Longrightarrow>
   train_iterations c cfg a2 next_state dn1 k = Some (Inr (a', s, d, rs)) \<Longrightarrow>
   train_iterations c cfg a state dn (Suc k) = Some (Inr (a', s, d, reward # rs))"
  by (simp add: rbind_def ok_def)

lemma train_iterations_SucD:
  assumes "train_iterations c cfg a state dn (Suc k) = Some (Inr (a', s, d, rs))"
  shows "\<exists>a1 next_state reward dn1 a2 rs'.
     train_interact c cfg a state = Inr (a1, next_state, reward, dn1) \<and>
     train_step_interval c cfg a1 = Some (Inr a2) \<and>
     train_iterations c cfg a2 next_state dn1 k = Some (Inr (a', s, d, rs')) \<and>
     rs = reward # rs'"
proof -
  have "\<exists>b. train_interact c cfg a state = Inr b"
  proof (cases "train_interact c cfg a state")
    case (Inl e)
    with assms show ?thesis by (simp add: raise_def)
  next
    case (Inr b)
    then show ?thesis by (rule exI)
  qed
  then obtain b where b: "train_interact c cfg a state = Inr b" by (elim exE)
  obtain a1 next_state reward dn1 where b4: "b = (a1, next_state, reward, dn1)" by (cases b)
  note ti = b [unfolded b4]
  have "\<exists>a2. train_step_interval c cfg a1 = Some (Inr a2)"
  proof (cases "train_step_interval c cfg a1")
    case None
    with assms ti show ?thesis by (simp add: rbind_def)
  next
    case (Some y)
    with assms ti show ?thesis by (cases y) (simp_all add: rbind_def)
  qed
  then obtain a2 where tsi: "train_step_interval c cfg a1 = Some (Inr a2)" by (elim exE)
  have "\<exists>x. train_iterations c cfg a2 next_state dn1 k = Some (Inr x)"
  proof (cases "train_iterations c cfg a2 next_state dn1 k")
    case None
    with assms ti tsi show ?thesis by (simp add: rbind_def)
  next
    case (Some y)
    with assms ti tsi show ?thesis by (cases y) (auto simp: rbind_def)
  qed
  then obtain x where x: "train_iterations c cfg a2 next_state dn1 k = Some (Inr x)"
    by (elim exE)
  obtain a3 s3 d3 rs' where x4: "x = (a3, s3, d3, rs')" by (cases x)
  from assms ti tsi x x4 have "a3 = a' \<and> s3 = s \<and> d3 = d \<and> rs = reward # rs'"
    by (auto simp: rbind_def ok_def)
  with ti tsi x x4 show ?thesis by blast
qed

lemma train_iterations_effect:
  "train_iterations c cfg a state dn k = Some (Inr (a', s, d, rs)) \<Longrightarrow>
   length rs = k \<and> steps a' = steps a + int k \<and>
   epsilon_train a' = (eps_step c ^^ k) (epsilon_train a) \<and>
   episodes a' = episodes a \<and> train_return a' = train_return a"
proof (induction k arbitrary: a state dn rs)
  case 0
  then show ?case by (simp add: ok_def)
next
  case (Suc k)
  from train_iterations_SucD [OF Suc.prems] obtain a1 next_state reward dn1 a2 rs' where
    ti: "train_interact c cfg a state = Inr (a1, next_state, reward, dn1)" and
    tsi: "train_step_interval c cfg a1 = Some (Inr a2)" and
    rest: "train_iterations c cfg a2 next_state dn1 k = Some (Inr (a', s, d, rs'))" and
    rs: "rs = reward # rs'"
    by blast
  note ih = Suc.IH [OF rest]
  note i = train_interact_effect [OF ti]
  note t = train_step_interval_frame [OF tsi]
  have e2: "epsilon_train a2 = eps_step c (epsilon_train a)" using i t by simp
  have "epsilon_train a' = (eps_step c ^^ k) (eps_step c (epsilon_train a))"
    using ih e2 by simp
  then have eps: "epsilon_train a' = (eps_step c ^^ Suc k) (epsilon_train a)"
    by (simp only: funpow_Suc_right o_apply)
  have st: "steps a' = steps a + int (Suc k)" using ih i t by simp
  have len: "length rs = Suc k" using ih rs by simp
  have other: "episodes a' = episodes a \<and> train_return a' = train_return a" using ih i t by simp
  from len st eps other show ?case by simp
qed

lemma train_loop_sound:
  "train_loop c cfg a state dn es er = Some (Inr (a', es', er')) \<Longrightarrow>
   \<exists>k s d rs. train_iterations c cfg a state dn k = Some (Inr (a', s, d, rs)) \<and>
      es' = es + int k \<and> er' = er + sum_list rs \<and>
      (d \<or> max_episode_steps cfg < es') \<and>
      (\<forall>j<k. loop_test c cfg a state dn es j)"
proof (induction c cfg a state dn es er rule: train_loop.induct)
  case (1 c cfg a state dn es er)
  show ?case
  proof (cases "\<not> dn \<and> es \<le> max_episode_steps cfg")
    case False
    then have stop: "dn \<or> max_episode_steps cfg < es" by auto
    with "1.prems" have "a' = a \<and> es' = es \<and> er' = er" by (simp add: train_loop_stop ok_def)
    with stop have "train_iterations c cfg a state dn 0 = Some (Inr (a', state, dn, [])) \<and>
      es' = es + int 0 \<and> er' = er + sum_list [] \<and>
      (dn \<or> max_episode_steps cfg < es') \<and>
      (\<forall>j<(0::nat). loop_test c cfg a state dn es j)"
      by (simp add: ok_def)
    then show ?thesis by blast
  next
    case True
    then have g: "\<not> dn" "es \<le> max_episode_steps cfg" by simp_all
    note unf = "1.prems" [unfolded train_loop_step [OF g]]
    have "\<exists>b. train_interact c cfg a state = Inr b"
    proof (cases "train_interact c cfg a state")
      case (Inl e)
      with unf show ?thesis by (simp add: raise_def)
    next
      case (Inr b)
      then show ?thesis by (rule exI)
    qed
    then obtain b where b: "train_interact c cfg a state = Inr b" by (elim exE)
    obtain a1 next_state reward dn1 where b4: "b = (a1, next_state, reward, dn1)" by (cases b)
    note ti = b [unfolded b4]
    have "\<exists>a2. train_step_interval c cfg a1 = Some (Inr a2)"
    proof (cases "train_step_interval c cfg a1")
      case None
      with unf ti show ?thesis by simp
    next
      case (Some y)
      with unf ti show ?thesis by (cases y) (simp_all add: raise_def)
    qed
    then obtain a2 where tsi: "train_step_interval c cfg a1 = Some (Inr a2)" by (elim exE)
    from unf ti tsi have rec:
      "train_loop c cfg a2 next_state dn1 (es + 1) (er + reward) = Some (Inr (a', es', er'))"
      by simp
    from "1.IH" [OF True ti refl refl refl tsi refl rec] obtain k s d rs where
      ih: "train_iterations c cfg a2 next_state dn1 k = Some (Inr (a', s, d, rs))"
        "es' = es + 1 + int k" "er' = er + reward + sum_list rs"
        "d \<or> max_episode_steps cfg < es'"
        "\<forall>j<k. loop_test c cfg a2 next_state dn1 (es + 1) j"
      by blast
    have it: "train_iterations c cfg a state dn (Suc k) = Some (Inr (a', s, d, reward # rs))"
      using ti tsi ih(1) by (rule train_iterations_Suc)
    have lt: "\<forall>j<Suc k. loop_test c cfg a state dn es j"
    proof (intro allI impI)
      fix j assume j: "j < Suc k"
      show "loop_test c cfg a state dn es j"
      proof (cases j)
        case 0
        with True show ?thesis by (simp add: loop_test_def ok_def)
      next
        case (Suc i)
        with j ih(5) have "loop_test c cfg a2 next_state dn1 (es + 1) i" by simp
        with Suc show ?thesis by (simp only: loop_test_Suc [OF ti tsi])
      qed
    qed
    from it lt ih have "train_iterations c cfg a state dn (Suc k) = Some (Inr (a', s, d, reward # rs)) \<and>
      es' = es + int (Suc k) \<and> er' = er + sum_list (reward # rs) \<and>
      (d \<or> max_episode_steps cfg < es') \<and>
      (\<forall>j<Suc k. loop_test c cfg a state dn es j)"
      by simp
    then show ?thesis by blast
  qed
qed

lemma train_loop_complete:
  "train_iterations c cfg a state dn k = Some (Inr (a', s, d, rs)) \<Longrightarrow>
   d \<or> max_episode_steps cfg < es + int k \<Longrightarrow>
   (\<forall>j<k. loop_test c cfg a state dn es j) \<Longrightarrow>
   train_loop c cfg a state dn es er = Some (Inr (a', es + int k, er + sum_list rs))"
proof (induction k arbitrary: a state dn es er rs)
  case 0
  from "0.prems"(1) have "a' = a \<and> d = dn \<and> rs = []" by (simp add: ok_def)
  with "0.prems"(2) show ?case by (simp add: train_loop_stop ok_def)
next
  case (Suc k)
  from train_iterations_SucD [OF Suc.prems(1)] obtain a1 next_state reward dn1 a2 rs' where
    ti: "train_interact c cfg a state = Inr (a1, next_state, reward, dn1)" and
    tsi: "train_step_interval c cfg a1 = Some (Inr a2)" and
    rest: "train_iterations c cfg a2 next_state dn1 k = Some (Inr (a', s, d, rs'))" and
    rs: "rs = reward # rs'"
    by blast
  from Suc.prems(3) have "loop_test c cfg a state dn es 0" by simp
  then have g: "\<not> dn" "es \<le> max_episode_steps cfg" by (simp_all add: loop_test_def ok_def)
  from Suc.prems(2) have stop: "d \<or> max_episode_steps cfg < es + 1 + int k"
    by (simp add: algebra_simps)
  have lt: "\<forall>j<k. loop_test c cfg a2 next_state dn1 (es + 1) j"
  proof (intro allI impI)
    fix j assume "j < k"
    with Suc.prems(3) have "loop_test c cfg a state dn es (Suc j)" by simp
    then show "loop_test c cfg a2 next_state dn1 (es + 1) j"
      by (simp only: loop_test_Suc [OF ti tsi])
  qed
  from Suc.IH [OF rest stop lt, of "er + reward"] have
    "train_loop c cfg a2 next_state dn1 (es + 1) (er + reward) =
       Some (Inr (a', es + 1 + int k, er + reward + sum_list rs'))" .
  with ti tsi rs show ?case by (simp add: train_loop_step [OF g])
qed

lemma episode_from_iterations:
  assumes "episode_from c cfg a state = Some (Inr a')"
  shows "\<exists>a1 k s d rs. train_iterations c cfg a state False k = Some (Inr (a1, s, d, rs)) \<and>
         (d \<or> max_episode_steps cfg < int k) \<and>
         (\<forall>j<k. loop_test c cfg a state False 0 j) \<and>
         a' = a1\<lparr>train_return := stats_append c (train_return a1) (sum_list rs),
                 console := console a1 @ [Episode (episodes a1) (int k) (sum_list rs)]\<rparr> \<and>
         (k = 0 \<or> int k \<le> max_episode_steps cfg + 1)"
proof -
  from episode_from_result [OF assms] obtain a1 k' ret where
    loop: "train_loop c cfg a state False 0 0 = Some (Inr (a1, k', ret))" and
    a': "a' = a1\<lparr>train_return := stats_append c (train_return a1) ret,
             console := console a1 @ [Episode (episodes a1) k' ret]\<rparr>"
    by blast
  from train_loop_sound [OF loop] obtain k s d rs where
    it: "train_iterations c cfg a state False k = Some (Inr (a1, s, d, rs))" and
    k': "k' = 0 + int k" and ret: "ret = 0 + sum_list rs" and
    stop: "d \<or> max_episode_steps cfg < k'" and
    lt: "\<forall>j<k. loop_test c cfg a state False 0 j"
    by blast
  from train_loop_effect [OF loop] have "k' = 0 \<or> k' \<le> max_episode_steps cfg + 1" by simp
  with k' have bound: "k = 0 \<or> int k \<le> max_episode_steps cfg + 1" by simp
  from a' k' ret have a'': "a' = a1\<lparr>train_return := stats_append c (train_return a1) (sum_list rs),
                 console := console a1 @ [Episode (episodes a1) (int k) (sum_list rs)]\<rparr>"
    by simp
  from stop k' have stop': "d \<or> max_episode_steps cfg < int k" by simp
  from it stop' lt a'' bound show ?thesis by blast
qed

lemma episode_from_count:
  assumes "episode_from c cfg a state = Some (Inr a')"
  shows "\<exists>k rs. length rs = k \<and> (k = 0 \<or> int k \<le> max_episode_steps cfg + 1) \<and>
         steps a' = steps a + int k \<and>
         epsilon_train a' = (eps_step c ^^ k) (epsilon_train a) \<and>
         episodes a' = episodes a \<and>
         train_return a' = stats_append c (train_return a) (sum_list rs)"
proof -
  from episode_from_iterations [OF assms] obtain a1 k s d rs where
    it: "train_iterations c cfg a state False k = Some (Inr (a1, s, d, rs))" and
    a': "a' = a1\<lparr>train_return := stats_append c (train_return a1) (sum_list rs),
                 console := console a1 @ [Episode (episodes a1) (int k) (sum_list rs)]\<rparr>" and
    bound: "k = 0 \<or> int k \<le> max_episode_steps cfg + 1"
    by blast
  note e = train_iterations_effect [OF it]
  from e have "length rs = k \<and> (k = 0 \<or> int k \<le> max_episode_steps cfg + 1) \<and>
         steps a' = steps a + int k \<and>
         epsilon_train a' = (eps_step c ^^ k) (epsilon_train a) \<and>
         episodes a' = episodes a \<and>
         train_return a' = stats_append c (train_return a) (sum_list rs)"
    unfolding a' using bound by simp
  then show ?thesis by blast
qed

lemma train_episode_iterations:
  assumes "train_episode c cfg a = Some (Inr a')"
  shows "\<exists>k rs. length rs = k \<and> (k = 0 \<or> int k \<le> max_episode_steps cfg + 1) \<and>
         steps a' = steps a + int k \<and>
         epsilon_train a' = (eps_step c ^^ k) (epsilon_train a) \<and>
         episodes a' = episodes a + 1 \<and>
         train_return a' = stats_append c (train_return a) (sum_list rs)"
proof (cases "use_morl cfg")
  case True
  let ?a2 = "a\<lparr>online_net := net_train c (online_net a), target_net := net_train c (target_net a),
               episodes := episodes a + 1\<rparr>"
  let ?g = "get_states c (morl_env ?a2) (env ?a2)"
  from assms True have
    "episode_from c cfg (?a2\<lparr>morl_env := fst (snd ?g), env := snd (snd ?g)\<rparr>) (fst ?g) = Some (Inr a')"
    by (simp add: train_episode_def Let_def)
  from episode_from_count [OF this] show ?thesis by simp
next
  case False
  let ?a2 = "a\<lparr>online_net := net_train c (online_net a), target_net := net_train c (target_net a),
               episodes := episodes a + 1\<rparr>"
  let ?r = "env_reset c (env ?a2)"
  from assms False have "episode_from c cfg (?a2\<lparr>env := snd ?r\<rparr>) (fst ?r) = Some (Inr a')"
    by (simp add: train_episode_def Let_def)
  from episode_from_count [OF this] show ?thesis by simp
qed

section \<open>Theorems\<close>

text \<open>
  C1. For every value of the step counter, \<^verbatim>\<open>is_update()\<close> is true if and only if
  \<open>steps mod update_interval = 0\<close> and \<open>steps \<ge> start_steps\<close> (for a non-zero interval,
  where the remainder is defined); with \<open>update_interval = 4\<close> and \<open>start_steps = 50000\<close>
  it is true exactly when \<open>steps \<ge> 50000\<close> and \<open>steps\<close> is divisible by 4.
\<close>

theorem is_update_iff:
  "(update_interval cfg \<noteq> 0 \<longrightarrow>
      is_update cfg a = Inr (steps a mod update_interval cfg = 0 \<and> start_steps cfg \<le> steps a))
   \<and> (update_interval cfg = 4 \<and> start_steps cfg = 50000 \<longrightarrow>
      (is_update cfg a = Inr True \<longleftrightarrow> 50000 \<le> steps a \<and> 4 dvd steps a))"
  by (auto simp: is_update_def py_mod_def dvd_eq_mod_eq_0)

theorem is_update_iff_witness:
  "update_interval default_cfg \<noteq> 0 \<and> update_interval default_cfg = 4 \<and>
   start_steps default_cfg = 50000 \<and>
   is_update default_cfg (toy_agent\<lparr>steps := 50004\<rparr>) = Inr True \<and>
   (50000 \<le> steps (toy_agent\<lparr>steps := 50004\<rparr>) \<and> 4 dvd steps (toy_agent\<lparr>steps := 50004\<rparr>))"
  using is_update_iff [of default_cfg "toy_agent\<lparr>steps := 50004\<rparr>"]
  by (simp add: default_cfg_def)

text \<open>
  C2. Action selection follows the decision table. The action is random exactly when
  \<open>steps < start_steps\<close>, or else, when evaluating, the fresh draw is below
  \<open>epsilon_eval\<close>, or else, when training without noisy nets, the fresh draw is below the
  current training epsilon (never with noisy nets); the random state advances by one draw
  exactly in the cases that compare a draw. A random action is a sample of the action
  space; in every remaining case the action is the greedy one, the index of a
  maximal value of the online network's output for the current observation.
\<close>

theorem action_selection:
  "(fst (is_random c cfg a ev) \<longleftrightarrow>
      steps a < start_steps cfg \<or>
      (ev \<and> fst (rand c (rng a)) < epsilon_eval cfg) \<or>
      (\<not> ev \<and> \<not> noisy_net cfg \<and> fst (rand c (rng a)) < eps_get c (epsilon_train a))) \<and>
   snd (is_random c cfg a ev) =
      (if steps a < start_steps cfg \<or> (\<not> ev \<and> noisy_net cfg) then a
       else a\<lparr>rng := snd (rand c (rng a))\<rparr>) \<and>
   fst (explore c cfg a) =
      fst (if use_morl cfg then sample_actions c (rng a) else action_space_sample c (rng a)) \<and>
   (\<forall>action a1. eval_action c cfg a state = Inr (action, a1) \<longrightarrow>
      (if fst (is_random c cfg a True)
       then action = fst (explore c cfg (snd (is_random c cfg a True)))
       else (let q = (if use_morl cfg then net_outputs c (online_net a) state
                      else calculate_q c (online_net a) state)
             in action = int (argmax q) \<and> argmax q < length q \<and>
                (\<forall>j<length q. q ! j \<le> q ! argmax q)))) \<and>
   (\<forall>action a1. train_action c cfg a state = Inr (action, a1) \<longrightarrow>
      (if fst (is_random c cfg a False)
       then action = fst (explore c cfg (snd (is_random c cfg a False)))
       else (let q = (if use_morl cfg
                      then net_outputs c (online_net a) (fst (get_states c (morl_env a) (env a)))
                      else calculate_q c (online_net a) state)
             in action = int (argmax q) \<and> argmax q < length q \<and>
                (\<forall>j<length q. q ! j \<le> q ! argmax q))))"
proof (intro conjI allI impI)
  show "fst (is_random c cfg a ev) \<longleftrightarrow>
      steps a < start_steps cfg \<or>
      (ev \<and> fst (rand c (rng a)) < epsilon_eval cfg) \<or>
      (\<not> ev \<and> \<not> noisy_net cfg \<and> fst (rand c (rng a)) < eps_get c (epsilon_train a))"
    by (simp add: is_random_def Let_def)
next
  show "snd (is_random c cfg a ev) =
      (if steps a < start_steps cfg \<or> (\<not> ev \<and> noisy_net cfg) then a
       else a\<lparr>rng := snd (rand c (rng a))\<rparr>)"
    by (simp add: is_random_def Let_def)
next
  show "fst (explore c cfg a) =
      fst (if use_morl cfg then sample_actions c (rng a) else action_space_sample c (rng a))"
    by (simp add: explore_def Let_def)
next
  fix action a1
  assume h: "eval_action c cfg a state = Inr (action, a1)"
  obtain r where r: "snd (is_random c cfg a True) = a\<lparr>rng := r\<rparr>"
    using is_random_frame [of c cfg a True] by blast
  show "if fst (is_random c cfg a True)
       then action = fst (explore c cfg (snd (is_random c cfg a True)))
       else (let q = (if use_morl cfg then net_outputs c (online_net a) state
                      else calculate_q c (online_net a) state)
             in action = int (argmax q) \<and> argmax q < length q \<and>
                (\<forall>j<length q. q ! j \<le> q ! argmax q))"
  proof (cases "fst (is_random c cfg a True)")
    case True
    with h show ?thesis by (auto simp: eval_action_def Let_def)
  next
    case False
    let ?q = "if use_morl cfg then net_outputs c (online_net a) state
              else calculate_q c (online_net a) state"
    from h False r have "?q \<noteq> [] \<and> action = int (argmax ?q)"
      by (auto simp: eval_action_def exploit_def Let_def split: sum.splits if_splits)
    with argmax_greatest [of ?q] False show ?thesis by (simp add: Let_def)
  qed
next
  fix action a1
  assume h: "train_action c cfg a state = Inr (action, a1)"
  obtain r where r: "snd (is_random c cfg a False) = a\<lparr>rng := r\<rparr>"
    using is_random_frame [of c cfg a False] by blast
  show "if fst (is_random c cfg a False)
       then action = fst (explore c cfg (snd (is_random c cfg a False)))
       else (let q = (if use_morl cfg
                      then net_outputs c (online_net a) (fst (get_states c (morl_env a) (env a)))
                      else calculate_q c (online_net a) state)
             in action = int (argmax q) \<and> argmax q < length q \<and>
                (\<forall>j<length q. q ! j \<le> q ! argmax q))"
  proof (cases "fst (is_random c cfg a False)")
    case True
    with h show ?thesis by (auto simp: train_action_def Let_def)
  next
    case False
    let ?q = "if use_morl cfg
              then net_outputs c (online_net a) (fst (get_states c (morl_env a) (env a)))
              else calculate_q c (online_net a) state"
    from h False r have "?q \<noteq> [] \<and> action = int (argmax ?q)"
      by (auto simp: train_action_def exploit_def Let_def split: sum.splits if_splits)
    with argmax_greatest [of ?q] False show ?thesis by (simp add: Let_def)
  qed
qed

theorem action_selection_witness:
  "eval_action (toy 1) toy_cfg (toy_agent\<lparr>steps := 5\<rparr>) 0 = Inr (1, toy_agent\<lparr>steps := 5, rng := 1\<rparr>) \<and>
   train_action (toy 1) toy_cfg (toy_agent\<lparr>steps := 5\<rparr>) 0 = Inr (0, toy_agent\<lparr>steps := 5, rng := 2\<rparr>) \<and>
   \<not> fst (is_random (toy 1) toy_cfg (toy_agent\<lparr>steps := 5\<rparr>) True) \<and>
   fst (is_random (toy 1) toy_cfg (toy_agent\<lparr>steps := 5\<rparr>) False) \<and>
   (1::int) = int (argmax (calculate_q (toy 1) (online_net (toy_agent\<lparr>steps := 5\<rparr>)) 0)) \<and>
   (0::int) = fst (explore (toy 1) toy_cfg (snd (is_random (toy 1) toy_cfg (toy_agent\<lparr>steps := 5\<rparr>) False)))"
proof -
  have e: "eval_action (toy 1) toy_cfg (toy_agent\<lparr>steps := 5\<rparr>) 0 = Inr (1, toy_agent\<lparr>steps := 5, rng := 1\<rparr>)"
    by code_simp
  have t: "train_action (toy 1) toy_cfg (toy_agent\<lparr>steps := 5\<rparr>) 0 = Inr (0, toy_agent\<lparr>steps := 5, rng := 2\<rparr>)"
    by code_simp
  have m: "use_morl toy_cfg = False" by code_simp
  have r1: "\<not> fst (is_random (toy 1) toy_cfg (toy_agent\<lparr>steps := 5\<rparr>) True)" by code_simp
  have r2: "fst (is_random (toy 1) toy_cfg (toy_agent\<lparr>steps := 5\<rparr>) False)" by code_simp
  from r1 r2 m e t action_selection [of "toy 1" toy_cfg "toy_agent\<lparr>steps := 5\<rparr>" True 0]
  show ?thesis by (simp add: Let_def)
qed

text \<open>
  C3 (as amended). The evaluation sweep runs whole episodes and checks the budget only at
  episode boundaries. For \<open>max_episode_steps \<ge> 0\<close> it returns; whenever it returns it has
  run \<open>k + 1\<close> whole episodes, where the cumulative number of evaluation steps strictly
  exceeds \<open>num_eval_steps\<close> after episode \<open>k + 1\<close> and did not exceed it after any earlier
  episode; and the mean return it reports is the sum of the returns of these episodes
  divided by their number.
\<close>

theorem evaluate_sweep:
  "(0 \<le> max_episode_steps cfg \<longrightarrow> evaluate c cfg a \<noteq> None) \<and>
   (\<forall>a'. evaluate c cfg a = Some (Inr a') \<longrightarrow>
      (\<exists>k rets a1 ns.
         eval_episodes c cfg (a\<lparr>online_net := net_eval c (online_net a)\<rparr>) 0 (Suc k) = Inr (a1, rets, ns) \<and>
         length rets = Suc k \<and>
         num_eval_steps cfg < ns \<and>
         (\<forall>j. 0 < j \<and> j \<le> k \<longrightarrow>
            within_budget c cfg (a\<lparr>online_net := net_eval c (online_net a)\<rparr>) 0 j) \<and>
         console a' = console a @ [Eval (steps a) (sum_list rets / real (length rets))]))"
proof (intro conjI impI allI)
  assume "0 \<le> max_episode_steps cfg"
  then show "evaluate c cfg a \<noteq> None" by (rule evaluate_terminates)
next
  fix a'
  let ?a0 = "a\<lparr>online_net := net_eval c (online_net a)\<rparr>"
  assume ev: "evaluate c cfg a = Some (Inr a')"
  from evaluate_result [OF ev] obtain a1 ne ns tot where
    loop: "eval_loop c cfg ?a0 0 0 0 = Some (Inr (a1, ne, ns, tot))" and
    a': "a' = (if gt_score (tot / real_of_int ne) (best_eval_score a1)
           then (save_models c ''best'' (a1\<lparr>best_eval_score := Fin (tot / real_of_int ne)\<rparr>))
                  \<lparr>console := console a1 @ [Eval (steps a1) (tot / real_of_int ne)]\<rparr>
           else a1\<lparr>console := console a1 @ [Eval (steps a1) (tot / real_of_int ne)]\<rparr>)"
    by blast
  from eval_loop_sound [OF loop, rule_format, OF refl] obtain k rets where
    eps: "eval_episodes c cfg ?a0 0 (Suc k) = Inr (a1, rets, ns)" and
    ne: "ne = 0 + 1 + int k" and len: "length rets = Suc k" and
    tot: "tot = 0 + sum_list rets" and over: "num_eval_steps cfg < ns" and
    within: "\<forall>j. 0 < j \<and> j \<le> k \<longrightarrow> within_budget c cfg ?a0 0 j"
    by blast
  from eval_loop_frame [OF loop] obtain te r where a1: "a1 = ?a0\<lparr>test_env := te, rng := r\<rparr>"
    by blast
  from ne len have "real_of_int ne = real (length rets)" by simp
  with a' a1 tot have "console a' = console a @ [Eval (steps a) (sum_list rets / real (length rets))]"
    by (simp add: save_models_def)
  with eps len over within
  show "\<exists>k rets a1 ns.
         eval_episodes c cfg ?a0 0 (Suc k) = Inr (a1, rets, ns) \<and>
         length rets = Suc k \<and>
         num_eval_steps cfg < ns \<and>
         (\<forall>j. 0 < j \<and> j \<le> k \<longrightarrow> within_budget c cfg ?a0 0 j) \<and>
         console a' = console a @ [Eval (steps a) (sum_list rets / real (length rets))]"
    by blast
qed

theorem evaluate_sweep_witness:
  "0 \<le> max_episode_steps toy_cfg \<and>
   evaluate (toy 1) toy_cfg toy_agent =
     Some (Inr (toy_agent\<lparr>test_env := 1, rng := 2, best_eval_score := Fin 1,
                  saved := [(''best'', 0, 0)], console := [Eval 0 1]\<rparr>)) \<and>
   (\<exists>k rets a1 ns.
      eval_episodes (toy 1) toy_cfg (toy_agent\<lparr>online_net := net_eval (toy 1) (online_net toy_agent)\<rparr>) 0 (Suc k)
        = Inr (a1, rets, ns) \<and>
      length rets = Suc k \<and> num_eval_steps toy_cfg < ns \<and>
      (\<forall>j. 0 < j \<and> j \<le> k \<longrightarrow>
         within_budget (toy 1) toy_cfg (toy_agent\<lparr>online_net := net_eval (toy 1) (online_net toy_agent)\<rparr>) 0 j) \<and>
      console (toy_agent\<lparr>test_env := 1, rng := 2, best_eval_score := Fin 1,
                  saved := [(''best'', 0, 0)], console := [Eval 0 1]\<rparr>) =
        console toy_agent @ [Eval (steps toy_agent) (sum_list rets / real (length rets))])"
proof -
  have h: "0 \<le> max_episode_steps toy_cfg" by code_simp
  have e: "evaluate (toy 1) toy_cfg toy_agent =
     Some (Inr (toy_agent\<lparr>test_env := 1, rng := 2, best_eval_score := Fin 1,
                  saved := [(''best'', 0, 0)], console := [Eval 0 1]\<rparr>))"
    by code_simp
  from evaluate_sweep [of toy_cfg "toy 1" toy_agent] h e show ?thesis by blast
qed

theorem evaluate_sweep_counterexample:
  "num_eval_steps toy_cfg = 1 \<and>
   eval_episodes (toy 1) toy_cfg toy_agent 0 1 = Inr (toy_agent\<lparr>test_env := 1, rng := 1\<rparr>, [1], 1) \<and>
   eval_loop (toy 1) toy_cfg toy_agent 0 0 0 = Some (Inr (toy_agent\<lparr>test_env := 1, rng := 2\<rparr>, 2, 2, 2))"
  by code_simp

text \<open>
  C4 (as amended). A training episode takes its initial state from a reset of the
  environment when morl is off, and from \<^verbatim>\<open>morl_env.get_states_()\<close> when morl is on
  (the episode itself then calls no reset). It then loops while the episode is not done
  and \<open>episode_steps \<le> max_episode_steps\<close>, and every pass of the loop is one interaction
  followed by one scheduler tick. The interaction selects an action, steps the
  environment (through \<^verbatim>\<open>morl_env.step_\<close> when morl is on), appends the transition to
  the replay memory (to the morl memory when morl is on, and then not to the replay
  memory) and increments the step counter by exactly 1; the tick advances the training
  epsilon exactly once and leaves the step counter alone. So the loop returns exactly
  the result of \<open>k\<close> such iterations, where the loop test held before each of them and
  fails after the last. On loop exit the episode's return, which is the sum of the
  rewards of these iterations, is appended to the running return statistics exactly
  once.
\<close>

theorem train_episode_loop:
  "train_episode c cfg a =
     (if use_morl cfg
      then episode_from c cfg
             (a\<lparr>online_net := net_train c (online_net a), target_net := net_train c (target_net a),
                episodes := episodes a + 1,
                morl_env := fst (snd (get_states c (morl_env a) (env a))),
                env := snd (snd (get_states c (morl_env a) (env a)))\<rparr>)
             (fst (get_states c (morl_env a) (env a)))
      else episode_from c cfg
             (a\<lparr>online_net := net_train c (online_net a), target_net := net_train c (target_net a),
                episodes := episodes a + 1, env := snd (env_reset c (env a))\<rparr>)
             (fst (env_reset c (env a)))) \<and>
   (\<not> dn \<and> es \<le> max_episode_steps cfg \<longrightarrow>
      train_loop c cfg a state dn es er =
        (case train_interact c cfg a state of
           Inl e \<Rightarrow> raise e
         | Inr (a1, next_state, reward, dn1) \<Rightarrow>
             (case train_step_interval c cfg a1 of
                None \<Rightarrow> None
              | Some (Inl e) \<Rightarrow> raise e
              | Some (Inr a2) \<Rightarrow>
                  train_loop c cfg a2 next_state dn1 (es + 1) (er + reward)))) \<and>
   (\<forall>es er. train_loop c cfg a state True es er = ok (a, es, er)) \<and>
   (\<forall>es er. max_episode_steps cfg < es \<longrightarrow> train_loop c cfg a state dn es er = ok (a, es, er)) \<and>
   (\<forall>a1 next_state reward dn1.
      train_interact c cfg a state = Inr (a1, next_state, reward, dn1) \<longrightarrow>
        steps a1 = steps a + 1 \<and> epsilon_train a1 = epsilon_train a \<and>
        train_return a1 = train_return a \<and>
        (if use_morl cfg then memory a1 = memory a else morl_memory a1 = morl_memory a) \<and>
        (\<exists>action a2.
           train_action c cfg
             (a\<lparr>online_net := fst (if use_morl cfg then reset_noise c (online_net a) (rng a)
                                     else sample_noise c (online_net a) (rng a)),
                rng := snd (if use_morl cfg then reset_noise c (online_net a) (rng a)
                            else sample_noise c (online_net a) (rng a))\<rparr>) state =
             Inr (action, a2) \<and>
           (if use_morl cfg
            then \<exists>x. morl_step c (morl_env a2) (env a2) action = (x, morl_env a1, env a1) \<and>
                     morl_memory a1 = morl_add c (morl_memory a) x \<and>
                     next_states x = next_state \<and> rewards x = reward \<and> dones x = dn1
            else env_step c (env a2) action = ((next_state, reward, dn1), env a1) \<and>
                 memory a1 =
                   mem_append c (memory a) (state, action, reward, next_state, dn1)))) \<and>
   (\<forall>a'. train_step_interval c cfg a = Some (Inr a') \<longrightarrow>
      steps a' = steps a \<and> epsilon_train a' = eps_step c (epsilon_train a) \<and>
      train_return a' = train_return a) \<and>
   (\<forall>a' es' er'. train_loop c cfg a state dn es er = Some (Inr (a', es', er')) \<longleftrightarrow>
      (\<exists>k s d rs. train_iterations c cfg a state dn k = Some (Inr (a', s, d, rs)) \<and>
         es' = es + int k \<and> er' = er + sum_list rs \<and>
         (d \<or> max_episode_steps cfg < es') \<and>
         (\<forall>j<k. loop_test c cfg a state dn es j))) \<and>
   (\<forall>a' s d rs k. train_iterations c cfg a state dn k = Some (Inr (a', s, d, rs)) \<longrightarrow>
      length rs = k \<and> steps a' = steps a + int k \<and>
      epsilon_train a' = (eps_step c ^^ k) (epsilon_train a) \<and>
      train_return a' = train_return a) \<and>
   (\<forall>a'. episode_from c cfg a state = Some (Inr a') \<longleftrightarrow>
      (\<exists>a1 k s d rs. train_iterations c cfg a state False k = Some (Inr (a1, s, d, rs)) \<and>
         (d \<or> max_episode_steps cfg < int k) \<and>
         (\<forall>j<k. loop_test c cfg a state False 0 j) \<and>
         a' = a1\<lparr>train_return := stats_append c (train_return a1) (sum_list rs),
                 console := console a1 @ [Episode (episodes a1) (int k) (sum_list rs)]\<rparr>)) \<and>
   (\<forall>a'. train_episode c cfg a = Some (Inr a') \<longrightarrow>
      (\<exists>k rs. length rs = k \<and> (k = 0 \<or> int k \<le> max_episode_steps cfg + 1) \<and>
         steps a' = steps a + int k \<and>
         epsilon_train a' = (eps_step c ^^ k) (epsilon_train a) \<and>
         episodes a' = episodes a + 1 \<and>
         train_return a' = stats_append c (train_return a) (sum_list rs)))"
proof (intro conjI allI impI iffI)
  show "train_episode c cfg a =
     (if use_morl cfg
      then episode_from c cfg
             (a\<lparr>online_net := net_train c (online_net a), target_net := net_train c (target_net a),
                episodes := episodes a + 1,
                morl_env := fst (snd (get_states c (morl_env a) (env a))),
                env := snd (snd (get_states c (morl_env a) (env a)))\<rparr>)
             (fst (get_states c (morl_env a) (env a)))
      else episode_from c cfg
             (a\<lparr>online_net := net_train c (online_net a), target_net := net_train c (target_net a),
                episodes := episodes a + 1, env := snd (env_reset c (env a))\<rparr>)
             (fst (env_reset c (env a))))"
    by (simp add: train_episode_def Let_def)
next
  assume "\<not> dn \<and> es \<le> max_episode_steps cfg"
  then have "\<not> dn" "es \<le> max_episode_steps cfg" by simp_all
  then show "train_loop c cfg a state dn es er =
        (case train_interact c cfg a state of
           Inl e \<Rightarrow> raise e
         | Inr (a1, next_state, reward, dn1) \<Rightarrow>
             (case train_step_interval c cfg a1 of
                None \<Rightarrow> None
              | Some (Inl e) \<Rightarrow> raise e
              | Some (Inr a2) \<Rightarrow>
                  train_loop c cfg a2 next_state dn1 (es + 1) (er + reward)))"
    by (rule train_loop_step)
next
  fix es er
  show "train_loop c cfg a state True es er = ok (a, es, er)" by (simp add: train_loop_stop)
next
  fix es er
  assume "max_episode_steps cfg < es"
  then show "train_loop c cfg a state dn es er = ok (a, es, er)" by (simp add: train_loop_stop)
next
  fix a1 next_state reward dn1
  assume ti: "train_interact c cfg a state = Inr (a1, next_state, reward, dn1)"
  note e = train_interact_effect [OF ti]
  from e show "steps a1 = steps a + 1" by simp
  from e show "epsilon_train a1 = epsilon_train a" by simp
  from e show "train_return a1 = train_return a" by simp
  from e show "if use_morl cfg then memory a1 = memory a else morl_memory a1 = morl_memory a"
    by (simp split: if_splits)
  from train_interact_action [OF ti]
  show "\<exists>action a2.
           train_action c cfg
             (a\<lparr>online_net := fst (if use_morl cfg then reset_noise c (online_net a) (rng a)
                                     else sample_noise c (online_net a) (rng a)),
                rng := snd (if use_morl cfg then reset_noise c (online_net a) (rng a)
                            else sample_noise c (online_net a) (rng a))\<rparr>) state =
             Inr (action, a2) \<and>
           (if use_morl cfg
            then \<exists>x. morl_step c (morl_env a2) (env a2) action = (x, morl_env a1, env a1) \<and>
                     morl_memory a1 = morl_add c (morl_memory a) x \<and>
                     next_states x = next_state \<and> rewards x = reward \<and> dones x = dn1
            else env_step c (env a2) action = ((next_state, reward, dn1), env a1) \<and>
                 memory a1 =
                   mem_append c (memory a) (state, action, reward, next_state, dn1))" .
next
  fix a'
  assume tsi: "train_step_interval c cfg a = Some (Inr a')"
  note t = train_step_interval_frame [OF tsi]
  from t show "steps a' = steps a" by simp
  from t show "epsilon_train a' = eps_step c (epsilon_train a)" by simp
  from t show "train_return a' = train_return a" by simp
next
  fix a' es' er'
  assume "train_loop c cfg a state dn es er = Some (Inr (a', es', er'))"
  then show "\<exists>k s d rs. train_iterations c cfg a state dn k = Some (Inr (a', s, d, rs)) \<and>
         es' = es + int k \<and> er' = er + sum_list rs \<and>
         (d \<or> max_episode_steps cfg < es') \<and>
         (\<forall>j<k. loop_test c cfg a state dn es j)"
    by (rule train_loop_sound)
next
  fix a' es' er'
  assume "\<exists>k s d rs. train_iterations c cfg a state dn k = Some (Inr (a', s, d, rs)) \<and>
         es' = es + int k \<and> er' = er + sum_list rs \<and>
         (d \<or> max_episode_steps cfg < es') \<and>
         (\<forall>j<k. loop_test c cfg a state dn es j)"
  then obtain k s d rs where
    it: "train_iterations c cfg a state dn k = Some (Inr (a', s, d, rs))" and
    es': "es' = es + int k" and er': "er' = er + sum_list rs" and
    stop: "d \<or> max_episode_steps cfg < es'" and
    lt: "\<forall>j<k. loop_test c cfg a state dn es j"
    by blast
  from stop es' have "d \<or> max_episode_steps cfg < es + int k" by simp
  from train_loop_complete [OF it this lt, of er] es' er'
  show "train_loop c cfg a state dn es er = Some (Inr (a', es', er'))" by simp
next
  fix a' s d rs k
  assume "train_iterations c cfg a state dn k = Some (Inr (a', s, d, rs))"
  note e = train_iterations_effect [OF this]
  from e show "length rs = k" by simp
  from e show "steps a' = steps a + int k" by simp
  from e show "epsilon_train a' = (eps_step c ^^ k) (epsilon_train a)" by simp
  from e show "train_return a' = train_return a" by simp
next
  fix a'
  assume "episode_from c cfg a state = Some (Inr a')"
  from episode_from_iterations [OF this]
  show "\<exists>a1 k s d rs. train_iterations c cfg a state False k = Some (Inr (a1, s, d, rs)) \<and>
         (d \<or> max_episode_steps cfg < int k) \<and>
         (\<forall>j<k. loop_test c cfg a state False 0 j) \<and>
         a' = a1\<lparr>train_return := stats_append c (train_return a1) (sum_list rs),
                 console := console a1 @ [Episode (episodes a1) (int k) (sum_list rs)]\<rparr>"
    by blast
next
  fix a'
  assume "\<exists>a1 k s d rs. train_iterations c cfg a state False k = Some (Inr (a1, s, d, rs)) \<and>
         (d \<or> max_episode_steps cfg < int k) \<and>
         (\<forall>j<k. loop_test c cfg a state False 0 j) \<and>
         a' = a1\<lparr>train_return := stats_append c (train_return a1) (sum_list rs),
                 console := console a1 @ [Episode (episodes a1) (int k) (sum_list rs)]\<rparr>"
  then obtain a1 k s d rs where
    it: "train_iterations c cfg a state False k = Some (Inr (a1, s, d, rs))" and
    stop: "d \<or> max_episode_steps cfg < int k" and
    lt: "\<forall>j<k. loop_test c cfg a state False 0 j" and
    a': "a' = a1\<lparr>train_return := stats_append c (train_return a1) (sum_list rs),
                 console := console a1 @ [Episode (episodes a1) (int k) (sum_list rs)]\<rparr>"
    by blast
  from stop have "d \<or> max_episode_steps cfg < 0 + int k" by simp
  from train_loop_complete [OF it this lt, of 0] have
    "train_loop c cfg a state False 0 0 = Some (Inr (a1, int k, sum_list rs))" by simp
  with a' show "episode_from c cfg a state = Some (Inr a')"
    by (simp add: episode_from_def rbind_def ok_def)
next
  fix a'
  assume "train_episode c cfg a = Some (Inr a')"
  then show "\<exists>k rs. length rs = k \<and> (k = 0 \<or> int k \<le> max_episode_steps cfg + 1) \<and>
         steps a' = steps a + int k \<and>
         epsilon_train a' = (eps_step c ^^ k) (epsilon_train a) \<and>
         episodes a' = episodes a + 1 \<and>
         train_return a' = stats_append c (train_return a) (sum_list rs)"
    by (rule train_episode_iterations)
qed

theorem train_episode_loop_witness:
  "\<not> use_morl toy_cfg \<and>
   train_episode (toy 2) toy_cfg toy_agent =
     episode_from (toy 2) toy_cfg
       (toy_agent\<lparr>online_net := net_train (toy 2) (online_net toy_agent),
                   target_net := net_train (toy 2) (target_net toy_agent),
                   episodes := episodes toy_agent + 1,
                   env := snd (env_reset (toy 2) (env toy_agent))\<rparr>)
       (fst (env_reset (toy 2) (env toy_agent))) \<and>
   (\<not> False \<and> 0 \<le> max_episode_steps toy_cfg) \<and>
   train_loop (toy 2) toy_cfg toy_agent 0 False 0 0 =
     (case train_interact (toy 2) toy_cfg toy_agent 0 of
        Inl e \<Rightarrow> raise e
      | Inr (a1, next_state, reward, dn1) \<Rightarrow>
          (case train_step_interval (toy 2) toy_cfg a1 of
             None \<Rightarrow> None
           | Some (Inl e) \<Rightarrow> raise e
           | Some (Inr a2) \<Rightarrow>
               train_loop (toy 2) toy_cfg a2 next_state dn1 (0 + 1) (0 + reward))) \<and>
   max_episode_steps toy_cfg < 11 \<and>
   train_loop (toy 2) toy_cfg toy_agent 0 False 11 0 = ok (toy_agent, 11, 0) \<and>
   train_interact (toy 2) toy_cfg toy_agent 0 =
     Inr (toy_agent\<lparr>env := 8, memory := [(0, 0, 1, 8, True)], rng := 1, steps := 1\<rparr>, 8, 1, True) \<and>
   steps (toy_agent\<lparr>env := 8, memory := [(0, 0, 1, 8, True)], rng := 1, steps := 1\<rparr>) = steps toy_agent + 1 \<and>
   morl_memory (toy_agent\<lparr>env := 8, memory := [(0, 0, 1, 8, True)], rng := 1, steps := 1\<rparr>) =
     morl_memory toy_agent \<and>
   train_step_interval (toy 2) toy_cfg toy_agent =
     Some (Inr (toy_agent\<lparr>test_env := 2, epsilon_train := 1, rng := 2, best_eval_score := Fin 2,
                  saved := [(''best'', 0, 0), (''final'', 0, 0)], console := [Eval 0 2]\<rparr>)) \<and>
   epsilon_train (toy_agent\<lparr>test_env := 2, epsilon_train := 1, rng := 2, best_eval_score := Fin 2,
                  saved := [(''best'', 0, 0), (''final'', 0, 0)], console := [Eval 0 2]\<rparr>) =
     eps_step (toy 2) (epsilon_train toy_agent) \<and>
   train_iterations (toy 2) toy_cfg toy_agent 0 False 1 =
     Some (Inr (toy_agent\<lparr>env := 8, memory := [(0, 0, 1, 8, True)], epsilon_train := 1,
                  rng := 1, steps := 1\<rparr>, 8, True, [1])) \<and>
   train_loop (toy 2) toy_cfg toy_agent 0 False 0 0 =
     Some (Inr (toy_agent\<lparr>env := 8, memory := [(0, 0, 1, 8, True)], epsilon_train := 1,
                  rng := 1, steps := 1\<rparr>, 1, 1)) \<and>
   loop_test (toy 2) toy_cfg toy_agent 0 False 0 0 \<and>
   episode_from (toy 2) toy_cfg toy_agent 0 =
     Some (Inr (toy_agent\<lparr>env := 8, memory := [(0, 0, 1, 8, True)], epsilon_train := 1,
                  rng := 1, steps := 1, train_return := [1], console := [Episode 0 1 1]\<rparr>)) \<and>
   train_episode (toy 2) toy_cfg toy_agent =
     Some (Inr \<lparr>env = 2, test_env = 7, morl_env = 0, online_net = 1, target_net = 0,
          memory = [(0, 0, 1, 1, False), (1, 0, 1, 2, True)],
          morl_memory = [], train_return = [2], epsilon_train = 2, rng = 2,
          steps = 2, learning_steps = 1, episodes = 1,
          best_eval_score = NegInf, saved = [], console = [Episode 1 2 2]\<rparr>) \<and>
   (\<exists>k rs. length rs = k \<and> (k = 0 \<or> int k \<le> max_episode_steps toy_cfg + 1) \<and>
      (2::int) = steps toy_agent + int k \<and>
      (2::nat) = (eps_step (toy 2) ^^ k) (epsilon_train toy_agent) \<and>
      (1::int) = episodes toy_agent + 1 \<and>
      [2] = stats_append (toy 2) (train_return toy_agent) (sum_list rs))"
proof -
  have m: "\<not> use_morl toy_cfg" by code_simp
  have g: "\<not> False \<and> 0 \<le> max_episode_steps toy_cfg" by code_simp
  have x: "max_episode_steps toy_cfg < 11" by code_simp
  have i: "train_interact (toy 2) toy_cfg toy_agent 0 =
     Inr (toy_agent\<lparr>env := 8, memory := [(0, 0, 1, 8, True)], rng := 1, steps := 1\<rparr>, 8, 1, True)"
    by code_simp
  have t: "train_step_interval (toy 2) toy_cfg toy_agent =
     Some (Inr (toy_agent\<lparr>test_env := 2, epsilon_train := 1, rng := 2, best_eval_score := Fin 2,
                  saved := [(''best'', 0, 0), (''final'', 0, 0)], console := [Eval 0 2]\<rparr>))"
    by code_simp
  have n: "train_iterations (toy 2) toy_cfg toy_agent 0 False 1 =
     Some (Inr (toy_agent\<lparr>env := 8, memory := [(0, 0, 1, 8, True)], epsilon_train := 1,
                  rng := 1, steps := 1\<rparr>, 8, True, [1]))"
    by code_simp
  have lt0: "loop_test (toy 2) toy_cfg toy_agent 0 False 0 0" by code_simp
  have lt: "\<forall>j<(1::nat). loop_test (toy 2) toy_cfg toy_agent 0 False 0 j"
    using lt0 by simp
  have p: "train_episode (toy 2) toy_cfg toy_agent =
     Some (Inr \<lparr>env = 2, test_env = 7, morl_env = 0, online_net = 1, target_net = 0,
          memory = [(0, 0, 1, 1, False), (1, 0, 1, 2, True)],
          morl_memory = [], train_return = [2], epsilon_train = 2, rng = 2,
          steps = 2, learning_steps = 1, episodes = 1,
          best_eval_score = NegInf, saved = [], console = [Episode 1 2 2]\<rparr>)"
    by code_simp
  note th = train_episode_loop [of "toy 2" toy_cfg toy_agent False 0 0 0]
  note th1 = th [THEN conjunct1]
  note th2 = th [THEN conjunct2, THEN conjunct1]
  note th4 = th [THEN conjunct2, THEN conjunct2, THEN conjunct2, THEN conjunct1]
  note th5 = th [THEN conjunct2, THEN conjunct2, THEN conjunct2, THEN conjunct2, THEN conjunct1]
  note th6 = th [THEN conjunct2, THEN conjunct2, THEN conjunct2, THEN conjunct2, THEN conjunct2,
                 THEN conjunct1]
  note th7 = th [THEN conjunct2, THEN conjunct2, THEN conjunct2, THEN conjunct2, THEN conjunct2,
                 THEN conjunct2, THEN conjunct1]
  note th9 = th [THEN conjunct2, THEN conjunct2, THEN conjunct2, THEN conjunct2, THEN conjunct2,
                 THEN conjunct2, THEN conjunct2, THEN conjunct2, THEN conjunct1]
  note th10 = th [THEN conjunct2, THEN conjunct2, THEN conjunct2, THEN conjunct2, THEN conjunct2,
                  THEN conjunct2, THEN conjunct2, THEN conjunct2, THEN conjunct2]
  from th1 m have c1: "train_episode (toy 2) toy_cfg toy_agent =
     episode_from (toy 2) toy_cfg
       (toy_agent\<lparr>online_net := net_train (toy 2) (online_net toy_agent),
                   target_net := net_train (toy 2) (target_net toy_agent),
                   episodes := episodes toy_agent + 1,
                   env := snd (env_reset (toy 2) (env toy_agent))\<rparr>)
       (fst (env_reset (toy 2) (env toy_agent)))"
    by (simp only: if_False)
  from th2 g have c0: "train_loop (toy 2) toy_cfg toy_agent 0 False 0 0 =
     (case train_interact (toy 2) toy_cfg toy_agent 0 of
        Inl e \<Rightarrow> raise e
      | Inr (a1, next_state, reward, dn1) \<Rightarrow>
          (case train_step_interval (toy 2) toy_cfg a1 of
             None \<Rightarrow> None
           | Some (Inl e) \<Rightarrow> raise e
           | Some (Inr a2) \<Rightarrow>
               train_loop (toy 2) toy_cfg a2 next_state dn1 (0 + 1) (0 + reward)))"
    by (rule mp)
  from th4 x have c2: "train_loop (toy 2) toy_cfg toy_agent 0 False 11 0 = ok (toy_agent, 11, 0)"
    by blast
  from th5 [rule_format, OF i] m have c3:
    "steps (toy_agent\<lparr>env := 8, memory := [(0, 0, 1, 8, True)], rng := 1, steps := 1\<rparr>) = steps toy_agent + 1 \<and>
     morl_memory (toy_agent\<lparr>env := 8, memory := [(0, 0, 1, 8, True)], rng := 1, steps := 1\<rparr>) =
       morl_memory toy_agent"
    by (simp only: if_False)
  from th6 t have c4:
    "epsilon_train (toy_agent\<lparr>test_env := 2, epsilon_train := 1, rng := 2, best_eval_score := Fin 2,
                  saved := [(''best'', 0, 0), (''final'', 0, 0)], console := [Eval 0 2]\<rparr>) =
     eps_step (toy 2) (epsilon_train toy_agent)"
    by blast
  have stop: "True \<or> max_episode_steps toy_cfg < 1" by simp
  have sm: "(1::int) = 0 + int 1 \<and> (1::real) = 0 + sum_list [1]" by simp
  from n sm stop lt have ex: "\<exists>k s d rs. train_iterations (toy 2) toy_cfg toy_agent 0 False k =
        Some (Inr (toy_agent\<lparr>env := 8, memory := [(0, 0, 1, 8, True)], epsilon_train := 1,
                  rng := 1, steps := 1\<rparr>, s, d, rs)) \<and>
      (1::int) = 0 + int k \<and> (1::real) = 0 + sum_list rs \<and>
      (d \<or> max_episode_steps toy_cfg < 1) \<and>
      (\<forall>j<k. loop_test (toy 2) toy_cfg toy_agent 0 False 0 j)"
    by blast
  from th7 ex have l: "train_loop (toy 2) toy_cfg toy_agent 0 False 0 0 =
     Some (Inr (toy_agent\<lparr>env := 8, memory := [(0, 0, 1, 8, True)], epsilon_train := 1,
                  rng := 1, steps := 1\<rparr>, 1, 1))"
    by blast
  have stop2: "True \<or> max_episode_steps toy_cfg < int 1" by simp
  have rec: "toy_agent\<lparr>env := 8, memory := [(0, 0, 1, 8, True)], epsilon_train := 1,
                  rng := 1, steps := 1, train_return := [1], console := [Episode 0 1 1]\<rparr> =
        (toy_agent\<lparr>env := 8, memory := [(0, 0, 1, 8, True)], epsilon_train := 1,
                  rng := 1, steps := 1\<rparr>)\<lparr>train_return := stats_append (toy 2) (train_return (toy_agent\<lparr>env := 8, memory := [(0, 0, 1, 8, True)], epsilon_train := 1,
                  rng := 1, steps := 1\<rparr>)) (sum_list [1]),
             console := console (toy_agent\<lparr>env := 8, memory := [(0, 0, 1, 8, True)], epsilon_train := 1,
                  rng := 1, steps := 1\<rparr>) @ [Episode (episodes (toy_agent\<lparr>env := 8, memory := [(0, 0, 1, 8, True)], epsilon_train := 1,
                  rng := 1, steps := 1\<rparr>)) (int 1) (sum_list [1])]\<rparr>"
    by code_simp
  from n stop2 lt rec have ex2: "\<exists>a1 k s d rs. train_iterations (toy 2) toy_cfg toy_agent 0 False k = Some (Inr (a1, s, d, rs)) \<and>
      (d \<or> max_episode_steps toy_cfg < int k) \<and>
      (\<forall>j<k. loop_test (toy 2) toy_cfg toy_agent 0 False 0 j) \<and>
      toy_agent\<lparr>env := 8, memory := [(0, 0, 1, 8, True)], epsilon_train := 1,
                  rng := 1, steps := 1, train_return := [1], console := [Episode 0 1 1]\<rparr> =
        a1\<lparr>train_return := stats_append (toy 2) (train_return a1) (sum_list rs),
             console := console a1 @ [Episode (episodes a1) (int k) (sum_list rs)]\<rparr>"
    by blast
  from th9 ex2 have f: "episode_from (toy 2) toy_cfg toy_agent 0 =
     Some (Inr (toy_agent\<lparr>env := 8, memory := [(0, 0, 1, 8, True)], epsilon_train := 1,
                  rng := 1, steps := 1, train_return := [1], console := [Episode 0 1 1]\<rparr>))"
    by blast
  have c5: "\<exists>k rs. length rs = k \<and> (k = 0 \<or> int k \<le> max_episode_steps toy_cfg + 1) \<and>
      (2::int) = steps toy_agent + int k \<and>
      (2::nat) = (eps_step (toy 2) ^^ k) (epsilon_train toy_agent) \<and>
      (1::int) = episodes toy_agent + 1 \<and>
      [2] = stats_append (toy 2) (train_return toy_agent) (sum_list rs)"
    using th10 [rule_format, OF p] by simp
  from m c1 g c0 x c2 i c3 t c4 n l lt0 f p c5 show ?thesis by blast
qed

theorem train_episode_loop_counterexample:
  "train_episode (toy 9) (toy_cfg\<lparr>use_morl := True\<rparr>) toy_agent =
     Some (Inr \<lparr>env = 9, test_env = 7, morl_env = 2, online_net = 1, target_net = 0,
          memory = [],
          morl_memory =
            [\<lparr>next_states = 8, rewards = 1, dones = False\<rparr>,
             \<lparr>next_states = 9, rewards = 1, dones = True\<rparr>],
          train_return = [2], epsilon_train = 2, rng = 2, steps = 2,
          learning_steps = 1, episodes = 1, best_eval_score = NegInf,
          saved = [], console = [Episode 1 2 2]\<rparr>) \<and>
   steps toy_agent = 0 \<and> memory toy_agent = [] \<and> env toy_agent = 7 \<and>
   env_reset (toy 9) (env toy_agent) = (0, 0)"
  by code_simp

text \<open>
  C5. On every scheduler tick, one per training environment step (with a non-zero
  \<open>target_update_interval\<close>, where the remainder is defined), the target network
  receives a copy of the online network's parameters exactly when
  \<open>steps mod target_update_interval = 0\<close>, before the learning step and the evaluation;
  the copy leaves the online network as it is.
\<close>

theorem target_sync:
  "(target_update_interval cfg \<noteq> 0 \<longrightarrow>
      train_step_interval c cfg a =
        learn_and_evaluate c cfg
          (a\<lparr>epsilon_train := eps_step c (epsilon_train a),
             target_net := (if steps a mod target_update_interval cfg = 0
                            then load_state_dict c (target_net a) (state_dict c (online_net a))
                            else target_net a)\<rparr>)) \<and>
   target_net (update_target c a) = load_state_dict c (target_net a) (state_dict c (online_net a)) \<and>
   online_net (update_target c a) = online_net a"
  by (simp add: train_step_interval_def update_target_def py_mod_def Let_def)

theorem target_sync_witness:
  "target_update_interval toy_cfg \<noteq> 0 \<and>
   train_step_interval (toy 2) toy_cfg (toy_agent\<lparr>online_net := 3, steps := 4\<rparr>) =
     learn_and_evaluate (toy 2) toy_cfg (toy_agent\<lparr>online_net := 3, steps := 4, epsilon_train := 1, target_net := 3\<rparr>) \<and>
   train_step_interval (toy 2) toy_cfg (toy_agent\<lparr>online_net := 3, steps := 5\<rparr>) =
     learn_and_evaluate (toy 2) toy_cfg (toy_agent\<lparr>online_net := 3, steps := 5, epsilon_train := 1, target_net := 0\<rparr>)"
  using target_sync [of toy_cfg "toy 2" "toy_agent\<lparr>online_net := 3, steps := 4\<rparr>"]
        target_sync [of toy_cfg "toy 2" "toy_agent\<lparr>online_net := 3, steps := 5\<rparr>"]
  by (simp add: toy_cfg_def toy_def toy_agent_def)

text \<open>
  C6. After an evaluation sweep the best parameters are written if and only if the
  sweep's mean return is greater than the best score so far, and then the best score
  becomes that mean; otherwise both stay as they were. The score starts at minus infinity
  and never decreases: not over a sweep, a scheduler tick, a training episode or the
  whole run.
\<close>

theorem best_eval_score_monotone:
  "(\<forall>a'. evaluate c cfg a = Some (Inr a') \<longrightarrow>
      (\<exists>a1 ne ns tot.
         eval_loop c cfg (a\<lparr>online_net := net_eval c (online_net a)\<rparr>) 0 0 0 =
           Some (Inr (a1, ne, ns, tot)) \<and>
         (if gt_score (tot / real_of_int ne) (best_eval_score a)
          then best_eval_score a' = Fin (tot / real_of_int ne) \<and>
               saved a' = saved a @
                 [(''best'', state_dict c (online_net a'), state_dict c (target_net a'))]
          else best_eval_score a' = best_eval_score a \<and> saved a' = saved a)) \<and>
      score_le (best_eval_score a) (best_eval_score a')) \<and>
   (\<forall>a'. train_step_interval c cfg a = Some (Inr a') \<longrightarrow>
      score_le (best_eval_score a) (best_eval_score a')) \<and>
   (\<forall>a'. train_episode c cfg a = Some (Inr a') \<longrightarrow>
      score_le (best_eval_score a) (best_eval_score a')) \<and>
   (\<forall>a'. run c cfg a = Some (Inr a') \<longrightarrow>
      score_le (best_eval_score a) (best_eval_score a')) \<and>
   (\<forall>a0. init cfg (env a) (test_env a) (morl_env a) (online_net a) (target_net a) (memory a)
            (\<lambda>b. memory a) (morl_memory a) (train_return a) (epsilon_train a) (rng a) = Inr a0 \<longrightarrow>
      best_eval_score (a0 :: ('e, 'me, 'n, 'm, 'mm, 's, 'eps, 'r, 'p) agent) = NegInf)"
proof (intro conjI allI impI)
  fix a'
  let ?a0 = "a\<lparr>online_net := net_eval c (online_net a)\<rparr>"
  assume ev: "evaluate c cfg a = Some (Inr a')"
  from evaluate_result [OF ev] obtain a1 ne ns tot where
    loop: "eval_loop c cfg ?a0 0 0 0 = Some (Inr (a1, ne, ns, tot))" and
    a': "a' = (if gt_score (tot / real_of_int ne) (best_eval_score a1)
           then (save_models c ''best'' (a1\<lparr>best_eval_score := Fin (tot / real_of_int ne)\<rparr>))
                  \<lparr>console := console a1 @ [Eval (steps a1) (tot / real_of_int ne)]\<rparr>
           else a1\<lparr>console := console a1 @ [Eval (steps a1) (tot / real_of_int ne)]\<rparr>)"
    by blast
  from eval_loop_frame [OF loop] obtain te r where a1: "a1 = ?a0\<lparr>test_env := te, rng := r\<rparr>"
    by blast
  have "if gt_score (tot / real_of_int ne) (best_eval_score a)
          then best_eval_score a' = Fin (tot / real_of_int ne) \<and>
               saved a' = saved a @
                 [(''best'', state_dict c (online_net a'), state_dict c (target_net a'))]
          else best_eval_score a' = best_eval_score a \<and> saved a' = saved a"
    unfolding a' a1 by (simp add: save_models_def)
  with loop show "\<exists>a1 ne ns tot.
         eval_loop c cfg ?a0 0 0 0 = Some (Inr (a1, ne, ns, tot)) \<and>
         (if gt_score (tot / real_of_int ne) (best_eval_score a)
          then best_eval_score a' = Fin (tot / real_of_int ne) \<and>
               saved a' = saved a @
                 [(''best'', state_dict c (online_net a'), state_dict c (target_net a'))]
          else best_eval_score a' = best_eval_score a \<and> saved a' = saved a)"
    by blast
next
  fix a'
  assume ev: "evaluate c cfg a = Some (Inr a')"
  from evaluate_frame [OF ev] obtain te r b sv l where
    "a' = a\<lparr>online_net := net_eval c (online_net a), test_env := te, rng := r,
            best_eval_score := b, saved := sv, console := l\<rparr>"
    "score_le (best_eval_score a) b"
    by blast
  then show "score_le (best_eval_score a) (best_eval_score a')" by simp
next
  fix a'
  assume "train_step_interval c cfg a = Some (Inr a')"
  from train_step_interval_frame [OF this]
  show "score_le (best_eval_score a) (best_eval_score a')" by simp
next
  fix a'
  assume "train_episode c cfg a = Some (Inr a')"
  from train_episode_steps [OF this]
  show "score_le (best_eval_score a) (best_eval_score a')" by simp
next
  fix a'
  assume "run c cfg a = Some (Inr a')"
  from run_sound [OF this, rule_format, OF refl] obtain k where
    "train_episodes c cfg a (Suc k) = Some (Inr a')" by blast
  then show "score_le (best_eval_score a) (best_eval_score a')" by (rule train_episodes_score)
next
  fix a0 :: "('e, 'me, 'n, 'm, 'mm, 's, 'eps, 'r, 'p) agent"
  assume "init cfg (env a) (test_env a) (morl_env a) (online_net a) (target_net a) (memory a)
            (\<lambda>b. memory a) (morl_memory a) (train_return a) (epsilon_train a) (rng a) = Inr a0"
  then show "best_eval_score a0 = NegInf"
    by (auto simp: init_def split: sum.splits if_splits)
qed

theorem best_eval_score_monotone_witness:
  "evaluate (toy 2) toy_cfg toy_agent =
     Some (Inr (toy_agent\<lparr>test_env := 2, rng := 2, best_eval_score := Fin 2,
                  saved := [(''best'', 0, 0)], console := [Eval 0 2]\<rparr>)) \<and>
   eval_loop (toy 2) toy_cfg (toy_agent\<lparr>online_net := net_eval (toy 2) (online_net toy_agent)\<rparr>) 0 0 0 =
     Some (Inr (toy_agent\<lparr>test_env := 2, rng := 2\<rparr>, 1, 2, 2)) \<and>
   gt_score (2 / real_of_int 1) (best_eval_score toy_agent) \<and>
   score_le (best_eval_score toy_agent) (Fin 2) \<and>
   train_step_interval (toy 2) toy_cfg toy_agent =
     Some (Inr (toy_agent\<lparr>test_env := 2, epsilon_train := 1, rng := 2, best_eval_score := Fin 2,
                  saved := [(''best'', 0, 0), (''final'', 0, 0)], console := [Eval 0 2]\<rparr>)) \<and>
   train_episode (toy 2) toy_cfg toy_agent =
     Some (Inr \<lparr>env = 2, test_env = 7, morl_env = 0, online_net = 1, target_net = 0,
          memory = [(0, 0, 1, 1, False), (1, 0, 1, 2, True)],
          morl_memory = [], train_return = [2], epsilon_train = 2, rng = 2,
          steps = 2, learning_steps = 1, episodes = 1,
          best_eval_score = NegInf, saved = [], console = [Episode 1 2 2]\<rparr>) \<and>
   score_le (best_eval_score toy_agent) NegInf \<and>
   map_option (map_sum id best_eval_score) (run (toy 2) toy_cfg toy_agent) = Some (Inr (Fin 2)) \<and>
   init toy_cfg (env toy_agent) (test_env toy_agent) (morl_env toy_agent) (online_net toy_agent)
     (target_net toy_agent) (memory toy_agent) (\<lambda>b. memory toy_agent) (morl_memory toy_agent)
     (train_return toy_agent) (epsilon_train toy_agent) (rng toy_agent) = Inr toy_agent"
proof -
  have e: "evaluate (toy 2) toy_cfg toy_agent =
     Some (Inr (toy_agent\<lparr>test_env := 2, rng := 2, best_eval_score := Fin 2,
                  saved := [(''best'', 0, 0)], console := [Eval 0 2]\<rparr>))"
    by code_simp
  have l: "eval_loop (toy 2) toy_cfg (toy_agent\<lparr>online_net := net_eval (toy 2) (online_net toy_agent)\<rparr>) 0 0 0 =
     Some (Inr (toy_agent\<lparr>test_env := 2, rng := 2\<rparr>, 1, 2, 2))"
    by code_simp
  have g: "gt_score (2 / real_of_int 1) (best_eval_score toy_agent)" by code_simp
  have t: "train_step_interval (toy 2) toy_cfg toy_agent =
     Some (Inr (toy_agent\<lparr>test_env := 2, epsilon_train := 1, rng := 2, best_eval_score := Fin 2,
                  saved := [(''best'', 0, 0), (''final'', 0, 0)], console := [Eval 0 2]\<rparr>))"
    by code_simp
  have p: "train_episode (toy 2) toy_cfg toy_agent =
     Some (Inr \<lparr>env = 2, test_env = 7, morl_env = 0, online_net = 1, target_net = 0,
          memory = [(0, 0, 1, 1, False), (1, 0, 1, 2, True)],
          morl_memory = [], train_return = [2], epsilon_train = 2, rng = 2,
          steps = 2, learning_steps = 1, episodes = 1,
          best_eval_score = NegInf, saved = [], console = [Episode 1 2 2]\<rparr>)"
    by code_simp
  have r: "map_option (map_sum id best_eval_score) (run (toy 2) toy_cfg toy_agent) = Some (Inr (Fin 2))"
    by code_simp
  have i: "init toy_cfg (env toy_agent) (test_env toy_agent) (morl_env toy_agent) (online_net toy_agent)
     (target_net toy_agent) (memory toy_agent) (\<lambda>b. memory toy_agent) (morl_memory toy_agent)
     (train_return toy_agent) (epsilon_train toy_agent) (rng toy_agent) = Inr toy_agent"
    by code_simp
  note th = best_eval_score_monotone [of "toy 2" toy_cfg toy_agent]
  from th e have s1: "score_le (best_eval_score toy_agent) (Fin 2)" by auto
  from th p have s2: "score_le (best_eval_score toy_agent) NegInf" by auto
  from e l g s1 t p s2 r i show ?thesis by blast
qed

text \<open>
  C7. \<^verbatim>\<open>run()\<close> returns only with \<open>steps > num_steps\<close>. It returns an agent exactly when
  that agent is the result of \<open>k + 1\<close> whole training episodes in sequence, the step
  counter exceeds \<open>num_steps\<close> after the last of them and did not exceed it after any
  earlier one: the condition is checked at episode boundaries only.
\<close>

theorem run_until_num_steps:
  "(\<forall>a'. run c cfg a = Some (Inr a') \<longrightarrow> num_steps cfg < steps a') \<and>
   (\<forall>a'. run c cfg a = Some (Inr a') \<longleftrightarrow>
      (\<exists>k. train_episodes c cfg a (Suc k) = Some (Inr a') \<and> num_steps cfg < steps a' \<and>
           (\<forall>j. 0 < j \<and> j \<le> k \<longrightarrow> still_training c cfg a j)))"
proof (intro conjI allI impI iffI)
  fix a'
  assume "run c cfg a = Some (Inr a')"
  from run_sound [OF this, rule_format, OF refl] show "num_steps cfg < steps a'" by simp
next
  fix a'
  assume "run c cfg a = Some (Inr a')"
  from run_sound [OF this, rule_format, OF refl]
  show "\<exists>k. train_episodes c cfg a (Suc k) = Some (Inr a') \<and> num_steps cfg < steps a' \<and>
           (\<forall>j. 0 < j \<and> j \<le> k \<longrightarrow> still_training c cfg a j)"
    by blast
next
  fix a'
  assume "\<exists>k. train_episodes c cfg a (Suc k) = Some (Inr a') \<and> num_steps cfg < steps a' \<and>
           (\<forall>j. 0 < j \<and> j \<le> k \<longrightarrow> still_training c cfg a j)"
  then obtain k where "train_episodes c cfg a (Suc k) = Some (Inr a')"
    "num_steps cfg < steps a'" "\<forall>j. 0 < j \<and> j \<le> k \<longrightarrow> still_training c cfg a j"
    by blast
  then show "run c cfg a = Some (Inr a')" by (rule run_complete)
qed

theorem run_until_num_steps_witness:
  "run (toy 2) toy_cfg toy_agent =
     Some (Inr \<lparr>env = 2, test_env = 2, morl_env = 0, online_net = 2, target_net = 1,
          memory = [(0, 0, 1, 1, False), (1, 0, 1, 2, True), (0, 1, 1, 1, False),
             (1, 1, 1, 2, True)],
          morl_memory = [], train_return = [2, 2], epsilon_train = 4,
          rng = 6, steps = 4, learning_steps = 2, episodes = 2,
          best_eval_score = Fin 2,
          saved = [(''best'', 1, 0), (''final'', 1, 0)],
          console = [Episode 1 2 2, Eval 3 2, Episode 2 2 2]\<rparr>) \<and>
   num_steps toy_cfg < 4 \<and>
   (\<exists>k. train_episodes (toy 2) toy_cfg toy_agent (Suc k) = run (toy 2) toy_cfg toy_agent \<and>
        (\<forall>j. 0 < j \<and> j \<le> k \<longrightarrow> still_training (toy 2) toy_cfg toy_agent j))"
proof -
  have r: "run (toy 2) toy_cfg toy_agent =
     Some (Inr \<lparr>env = 2, test_env = 2, morl_env = 0, online_net = 2, target_net = 1,
          memory = [(0, 0, 1, 1, False), (1, 0, 1, 2, True), (0, 1, 1, 1, False),
             (1, 1, 1, 2, True)],
          morl_memory = [], train_return = [2, 2], epsilon_train = 4,
          rng = 6, steps = 4, learning_steps = 2, episodes = 2,
          best_eval_score = Fin 2,
          saved = [(''best'', 1, 0), (''final'', 1, 0)],
          console = [Episode 1 2 2, Eval 3 2, Episode 2 2 2]\<rparr>)"
    by code_simp
  from run_until_num_steps [of "toy 2" toy_cfg toy_agent] r show ?thesis by auto
qed

text \<open>
  C8. With prioritized replay (and a non-zero \<open>update_interval\<close>, where the quotient is
  defined) the memory is constructed with \<open>beta_steps\<close> equal to
  \<open>(num_steps - start_steps) / update_interval\<close>.
\<close>

theorem beta_steps_coupling:
  "use_per cfg \<and> update_interval cfg \<noteq> 0 \<longrightarrow>
     (\<exists>a. init cfg env0 test_env0 morl_env0 online0 target0 lazy_memory lazy_per_memory
             morl_memory0 stats0 eps0 rng0 = Inr a \<and>
          memory a = lazy_per_memory
            (real_of_int (num_steps cfg - start_steps cfg) / real_of_int (update_interval cfg)))"
  by (simp add: init_def beta_steps_def py_div_def)

theorem beta_steps_coupling_witness:
  "use_per (default_cfg\<lparr>use_per := True\<rparr>) \<and> update_interval (default_cfg\<lparr>use_per := True\<rparr>) \<noteq> 0 \<and>
   (\<exists>a. init (default_cfg\<lparr>use_per := True\<rparr>) (0::nat) 0 (0::nat) (0::nat) 0 [] (\<lambda>b. [b]) (0::nat) (0::nat) (0::nat) (0::nat) = Inr a \<and>
        memory a = [12487500])"
  using beta_steps_coupling [of "default_cfg\<lparr>use_per := True\<rparr>" "0::nat" 0 "0::nat" "0::nat" 0 "[]" "\<lambda>b. [b]" "0::nat" "0::nat" "0::nat" "0::nat"]
  by (simp add: default_cfg_def)

text \<open>
  C9. A sweep of \<^verbatim>\<open>evaluate\<close> that returns leaves the replay memory (and the morl
  memory), the step counter, the episode counter and the training epsilon as they were.
  Its exploration test compares the fresh draw with \<open>epsilon_eval\<close> only, and the sweep
  does not depend on the training epsilon: with any other schedule in its place it returns
  the same agent.
\<close>

theorem evaluate_leaves_training_state:
  "(fst (is_random c cfg a True) \<longleftrightarrow>
      steps a < start_steps cfg \<or> fst (rand c (rng a)) < epsilon_eval cfg) \<and>
   (\<forall>a'. evaluate c cfg a = Some (Inr a') \<longrightarrow>
      memory a' = memory a \<and> morl_memory a' = morl_memory a \<and> steps a' = steps a \<and>
      episodes a' = episodes a \<and> epsilon_train a' = epsilon_train a \<and>
      (\<forall>e. evaluate c cfg (a\<lparr>epsilon_train := e\<rparr>) = Some (Inr (a'\<lparr>epsilon_train := e\<rparr>))))"
proof (intro conjI allI impI)
  show "fst (is_random c cfg a True) \<longleftrightarrow>
      steps a < start_steps cfg \<or> fst (rand c (rng a)) < epsilon_eval cfg"
    by (simp add: is_random_def Let_def)
next
  fix a'
  assume ev: "evaluate c cfg a = Some (Inr a')"
  from evaluate_frame [OF ev] obtain te r b sv l where
    a': "a' = a\<lparr>online_net := net_eval c (online_net a), test_env := te, rng := r,
            best_eval_score := b, saved := sv, console := l\<rparr>"
    by blast
  from a' show "memory a' = memory a" by simp
  from a' show "morl_memory a' = morl_memory a" by simp
  from a' show "steps a' = steps a" by simp
  from a' show "episodes a' = episodes a" by simp
  from a' show "epsilon_train a' = epsilon_train a" by simp
  fix e
  from ev show "evaluate c cfg (a\<lparr>epsilon_train := e\<rparr>) = Some (Inr (a'\<lparr>epsilon_train := e\<rparr>))"
    by (rule evaluate_eps)
qed

theorem evaluate_leaves_training_state_witness:
  "evaluate (toy 1) toy_cfg toy_agent =
     Some (Inr (toy_agent\<lparr>test_env := 1, rng := 2, best_eval_score := Fin 1,
                  saved := [(''best'', 0, 0)], console := [Eval 0 1]\<rparr>)) \<and>
   memory (toy_agent\<lparr>test_env := 1, rng := 2, best_eval_score := Fin 1,
                  saved := [(''best'', 0, 0)], console := [Eval 0 1]\<rparr>) = memory toy_agent \<and>
   steps (toy_agent\<lparr>test_env := 1, rng := 2, best_eval_score := Fin 1,
                  saved := [(''best'', 0, 0)], console := [Eval 0 1]\<rparr>) = steps toy_agent \<and>
   evaluate (toy 1) toy_cfg (toy_agent\<lparr>epsilon_train := 5\<rparr>) =
     Some (Inr (toy_agent\<lparr>test_env := 1, rng := 2, best_eval_score := Fin 1,
                  saved := [(''best'', 0, 0)], console := [Eval 0 1]\<rparr>\<lparr>epsilon_train := 5\<rparr>))"
proof -
  have e: "evaluate (toy 1) toy_cfg toy_agent =
     Some (Inr (toy_agent\<lparr>test_env := 1, rng := 2, best_eval_score := Fin 1,
                  saved := [(''best'', 0, 0)], console := [Eval 0 1]\<rparr>))"
    by code_simp
  from evaluate_leaves_training_state [of "toy 1" toy_cfg toy_agent] e show ?thesis by blast
qed

text \<open>
  C10. The mean return of \<^verbatim>\<open>evaluate\<close> is always defined: when the loop of the sweep
  exits, at least one episode has been counted, so neither division by \<open>num_episodes\<close>
  raises \<^verbatim>\<open>ZeroDivisionError\<close>, for every \<open>num_eval_steps\<close>.
\<close>

theorem evaluate_mean_defined:
  "evaluate c cfg a \<noteq> Some (Inl ZeroDivisionError) \<and>
   (\<forall>a1 ne ns tot.
      eval_loop c cfg (a\<lparr>online_net := net_eval c (online_net a)\<rparr>) 0 0 0 = Some (Inr (a1, ne, ns, tot)) \<longrightarrow>
      1 \<le> ne \<and> py_div tot ne = Inr (tot / real_of_int ne))"
proof (intro conjI allI impI)
  show "evaluate c cfg a \<noteq> Some (Inl ZeroDivisionError)" by (rule evaluate_error)
next
  fix a1 ne ns tot
  assume "eval_loop c cfg (a\<lparr>online_net := net_eval c (online_net a)\<rparr>) 0 0 0 = Some (Inr (a1, ne, ns, tot))"
  from eval_loop_episodes [OF this] show "1 \<le> ne" by simp
  then show "py_div tot ne = Inr (tot / real_of_int ne)" by (simp add: py_div_def)
qed

theorem evaluate_mean_defined_witness:
  "eval_loop (toy 1) toy_cfg (toy_agent\<lparr>online_net := net_eval (toy 1) (online_net toy_agent)\<rparr>) 0 0 0 =
     Some (Inr (toy_agent\<lparr>test_env := 1, rng := 2\<rparr>, 2, 2, 2)) \<and>
   (1::int) \<le> 2 \<and> py_div 2 2 = Inr (2 / real_of_int 2) \<and>
   evaluate (toy 1) toy_cfg toy_agent \<noteq> Some (Inl ZeroDivisionError)"
proof -
  have e: "eval_loop (toy 1) toy_cfg (toy_agent\<lparr>online_net := net_eval (toy 1) (online_net toy_agent)\<rparr>) 0 0 0 =
     Some (Inr (toy_agent\<lparr>test_env := 1, rng := 2\<rparr>, 2, 2, 2))"
    by code_simp
  from evaluate_mean_defined [of "toy 1" toy_cfg toy_agent] e show ?thesis by blast
qed

end
